theory Spec2Isabelle
  imports Main
begin

section \<open>Python values used by the dry runner\<close>

text \<open>
  The exceptions that the code raises itself or lets through. \<open>BadRequest\<close> carries the
  \<open>errors\<close> list of the response (each entry a dictionary, kept as an association list).
  \<open>TransportError\<close> stands for every exception of the client that is not a
  \<open>BadRequest\<close> (authentication, network, service outage).
\<close>

type_synonym error_entry = "(string \<times> string) list"

datatype py_exception =
    BadRequest "error_entry list"
  | TransportError string
  | ValueError
  | IndexError
  | KeyError
  | OSError
  | NotImplementedError string

datatype query_job = QueryJob string

text \<open>
  \<open>QueryJobConfig(dry_run=True, **opts)\<close>: the flag and the options passed through.
  Building it is taken to succeed.
\<close>

record job_config =
  dry_run :: bool
  options :: "(string \<times> string) list"

text \<open>What one unit of work does to the outside, in the order it does it.\<close>

datatype event =
    Query string job_config
  | LogInfo string
  | LogError string

section \<open>pathlib: pure POSIX paths\<close>

text \<open>
  A \<open>Path\<close> object is modelled by its \<open>parts\<close> tuple. \<open>Path s\<close> is the constructor
  from a string, \<open>path_div\<close> the \<open>/\<close> operator, \<open>PathJoin\<close> the constructor from
  several arguments (\<open>Path(*args)\<close>) and \<open>str_of_path\<close> is \<open>str(path)\<close>.
\<close>

type_synonym path = "string list"

fun split_sep :: "string \<Rightarrow> string list" where
  "split_sep [] = [[]]"
| "split_sep (c # cs) =
     (if c = CHR ''/'' then [] # split_sep cs
      else (case split_sep cs of [] \<Rightarrow> [[c]] | seg # segs \<Rightarrow> (c # seg) # segs))"

definition anchor :: "string \<Rightarrow> string list" where
  "anchor s =
     (let k = length (takeWhile (\<lambda>c. c = CHR ''/'') s)
      in if k = 0 then [] else if k = 2 then [''//''] else [''/''])"

definition Path :: "string \<Rightarrow> path" where
  "Path s = anchor s @ filter (\<lambda>seg. seg \<noteq> [] \<and> seg \<noteq> ''.'') (split_sep s)"

definition path_div :: "path \<Rightarrow> string \<Rightarrow> path" where
  "path_div p s = (if anchor s \<noteq> [] then Path s else p @ Path s)"

definition PathJoin :: "string list \<Rightarrow> path" where
  "PathJoin args = foldl path_div [] args"

fun join_sep :: "string list \<Rightarrow> string" where
  "join_sep [] = []"
| "join_sep [x] = x"
| "join_sep (x # y # ys) = x @ ''/'' @ join_sep (y # ys)"

definition str_of_path :: "path \<Rightarrow> string" where
  "str_of_path p =
     (case p of [] \<Rightarrow> ''.''
      | r # rest \<Rightarrow> if r = ''/'' \<or> r = ''//'' then r @ join_sep rest else join_sep p)"

text \<open>\<open>tuple.index\<close>: the position of the first occurrence, \<open>None\<close> where Python raises.\<close>

fun index_of :: "'a list \<Rightarrow> 'a \<Rightarrow> nat option" where
  "index_of [] x = None"
| "index_of (y # ys) x = (if y = x then Some 0 else map_option Suc (index_of ys x))"

text \<open>The segments a \<open>Path\<close> object can hold, and the tuples that are the parts of one.\<close>

definition plain :: "string \<Rightarrow> bool" where
  "plain seg \<longleftrightarrow> seg \<noteq> [] \<and> seg \<noteq> ''.'' \<and> CHR ''/'' \<notin> set seg"

definition wf_path :: "path \<Rightarrow> bool" where
  "wf_path p \<longleftrightarrow>
     (case p of [] \<Rightarrow> True
      | r # rest \<Rightarrow> (r = ''/'' \<or> r = ''//'' \<or> plain r) \<and> list_all plain rest)"

section \<open>The file system and the remote service\<close>

text \<open>
  The file system is a tree. A file holds what reading it gives: its text, or the
  exception \<open>open\<close>/\<open>read\<close> raises. The tree has no entry named \<open>..\<close>, so a path
  with such a segment names nothing here.
\<close>

datatype fs_node =
    File "py_exception + string"
  | Dir "(string \<times> fs_node) list"

fun lookup_entry :: "(string \<times> fs_node) list \<Rightarrow> string \<Rightarrow> fs_node option" where
  "lookup_entry [] n = None"
| "lookup_entry ((m, node) # es) n = (if m = n then Some node else lookup_entry es n)"

fun descend :: "fs_node \<Rightarrow> string list \<Rightarrow> fs_node option" where
  "descend node [] = Some node"
| "descend (File c) (n # ns) = None"
| "descend (Dir es) (n # ns) =
     (case lookup_entry es n of None \<Rightarrow> None | Some child \<Rightarrow> descend child ns)"

text \<open>
  The outside of the program: the file tree, the resolved working directory, what
  loading \<open>dbt_project.yml\<close> with \<open>yaml.safe_load\<close> gives, and the BigQuery
  \<open>Client\<close> constructor, whose result answers \<open>client.query(sql, job_config)\<close>.
  The service keeps no state between requests.
\<close>

record world =
  fs_root :: fs_node
  cwd :: path
  project_yml :: "py_exception + (string \<times> string) list"
  new_client ::
    "string \<Rightarrow> string \<Rightarrow> py_exception + (string \<Rightarrow> job_config \<Rightarrow> py_exception + query_job)"

text \<open>
  A path is resolved from the root when it is anchored and from the working directory
  otherwise.
\<close>

definition resolve :: "world \<Rightarrow> path \<Rightarrow> string list" where
  "resolve w p =
     (case p of [] \<Rightarrow> tl (cwd w)
      | r # rest \<Rightarrow> if r = ''/'' \<or> r = ''//'' then rest else tl (cwd w) @ p)"

definition fs_lookup :: "world \<Rightarrow> path \<Rightarrow> fs_node option" where
  "fs_lookup w p = descend (fs_root w) (resolve w p)"

text \<open>\<open>open(name, "r")\<close> followed by \<open>f.read()\<close>.\<close>

definition read_text :: "world \<Rightarrow> string \<Rightarrow> py_exception + string" where
  "read_text w name =
     (case fs_lookup w (Path name) of
        Some (File content) \<Rightarrow> content
      | _ \<Rightarrow> Inl OSError)"

definition endswith :: "string \<Rightarrow> string \<Rightarrow> bool" where
  "endswith s suf \<longleftrightarrow> length suf \<le> length s \<and> drop (length s - length suf) s = suf"

text \<open>
  \<open>dir.rglob("*.sql")\<close> on the tree under \<open>dir\<close>: the matching entries of a directory
  (files and directories alike), then those of each of its subdirectories.
\<close>

fun rglob_sql :: "path \<Rightarrow> fs_node \<Rightarrow> (path \<times> fs_node) list" where
  "rglob_sql p (File c) = []"
| "rglob_sql p (Dir es) =
     map (\<lambda>e. (p @ [fst e], snd e)) (filter (\<lambda>e. endswith (fst e) ''.sql'') es)
     @ concat (map (\<lambda>e. rglob_sql (p @ [fst e]) (snd e)) es)"

definition is_file :: "fs_node \<Rightarrow> bool" where
  "is_file node = (case node of File c \<Rightarrow> True | Dir es \<Rightarrow> False)"

section \<open>BigQueryDryRunner\<close>

record runner =
  client :: "string \<Rightarrow> job_config \<Rightarrow> py_exception + query_job"
  dbt_project_config :: "(string \<times> string) list"
  root_path :: path
  dbt_target_dir :: path

text \<open>
  The object has the fields that \<open>__init__\<close> sets; \<open>client\<close> is what
  \<open>self.client.query(sql, job_config=job_config)\<close> answers. A method returns its value or
  the exception it raises, and the methods that talk to the service return with it the
  events of the call. The names are the source's, without the leading underscore.
\<close>

definition trim_path_from :: "path \<Rightarrow> string \<Rightarrow> py_exception + path" where
  "trim_path_from path parent_dir =
     (case index_of path parent_dir of
        None \<Rightarrow> Inl ValueError
      | Some idx \<Rightarrow> Inr (PathJoin (drop idx path)))"

text \<open>
  \<open>_get_dbt_target_dir\<close> reads \<open>self.root_path\<close> and \<open>self.dbt_project_config\<close> only, and
  \<open>__init__\<close> calls it before \<open>self.dbt_target_dir\<close> exists: the two are its arguments
  here. \<open>not target_dir\<close> holds for \<open>None\<close> and for the empty string.
\<close>

definition get_dbt_target_dir ::
  "path \<Rightarrow> (string \<times> string) list \<Rightarrow> string option \<Rightarrow> py_exception + path" where
  "get_dbt_target_dir root config target_dir =
     (case map_of config ''name'' of
        None \<Rightarrow> Inl KeyError
      | Some name \<Rightarrow>
          (case target_dir of
             None \<Rightarrow>
               Inr (path_div (path_div (path_div (path_div root ''target'') ''compiled'')
                      name) ''models'')
           | Some t \<Rightarrow>
               if t = []
               then Inr (path_div (path_div (path_div (path_div root ''target'') ''compiled'')
                      name) ''models'')
               else Inr (path_div (path_div (path_div (path_div (path_div root ''target'')
                      t) ''compiled'') name) ''models'')))"

definition get_compiled_models :: "world \<Rightarrow> runner \<Rightarrow> path list" where
  "get_compiled_models w self =
     (case fs_lookup w (dbt_target_dir self) of
        None \<Rightarrow> []
      | Some node \<Rightarrow>
          map fst (filter (\<lambda>f. is_file (snd f)) (rglob_sql (dbt_target_dir self) node)))"

text \<open>\<open>e.errors[0]['message']\<close>, with the two ways it can raise.\<close>

definition first_message :: "error_entry list \<Rightarrow> py_exception + string" where
  "first_message errors =
     (case errors of
        [] \<Rightarrow> Inl IndexError
      | entry # rest \<Rightarrow>
          (case map_of entry ''message'' of None \<Rightarrow> Inl KeyError | Some m \<Rightarrow> Inr m))"

definition run ::
  "runner \<Rightarrow> string \<Rightarrow> (string \<times> string) list \<Rightarrow> (py_exception + query_job) \<times> event list" where
  "run self sql opts =
     (let cfg = \<lparr>dry_run = True, options = opts\<rparr>
      in case client self sql cfg of
           Inr results \<Rightarrow> (Inr results, [Query sql cfg, LogInfo ''Provided query is valid.''])
         | Inl (BadRequest errors) \<Rightarrow>
             (case first_message errors of
                Inl err \<Rightarrow> (Inl err, [Query sql cfg])
              | Inr m \<Rightarrow>
                  (Inl (BadRequest errors),
                   [Query sql cfg,
                    LogError (''Error running the dry run for provided query. The sever returned an error: '' @ m)]))
         | Inl other \<Rightarrow> (Inl other, [Query sql cfg]))"

text \<open>
  The argument of \<open>run_from_model\<close> is a string or a \<open>Path\<close> object. The label of the
  log line is computed inside the f-string, so after the answer of the service, and in
  the handler before the message of the error is read.
\<close>

datatype path_arg = Str string | PathObj path

definition run_from_model ::
  "world \<Rightarrow> runner \<Rightarrow> path_arg \<Rightarrow> (string \<times> string) list
     \<Rightarrow> (py_exception + query_job) \<times> event list" where
  "run_from_model w self model_arg opts =
     (let model_path = (case model_arg of Str s \<Rightarrow> Path s | PathObj p \<Rightarrow> p)
      in case read_text w (str_of_path model_path) of
           Inl err \<Rightarrow> (Inl err, [])
         | Inr sql \<Rightarrow>
             (let cfg = \<lparr>dry_run = True, options = opts\<rparr>
              in case client self sql cfg of
                   Inr results \<Rightarrow>
                     (case trim_path_from model_path ''models'' of
                        Inl err \<Rightarrow> (Inl err, [Query sql cfg])
                      | Inr shown \<Rightarrow>
                          (Inr results,
                           [Query sql cfg,
                            LogInfo (''Model '' @ str_of_path shown @ '' is valid.'')]))
                 | Inl (BadRequest errors) \<Rightarrow>
                     (case trim_path_from model_path ''models'' of
                        Inl err \<Rightarrow> (Inl err, [Query sql cfg])
                      | Inr shown \<Rightarrow>
                          (case first_message errors of
                             Inl err \<Rightarrow> (Inl err, [Query sql cfg])
                           | Inr m \<Rightarrow>
                               (Inl (BadRequest errors),
                                [Query sql cfg,
                                 LogError (''Error running the dry run for model ''
                                   @ str_of_path shown
                                   @ ''. The sever returned an error: '' @ m)])))
                 | Inl other \<Rightarrow> (Inl other, [Query sql cfg])))"

definition run_from_model_name ::
  "runner \<Rightarrow> string \<Rightarrow> (string \<times> string) list \<Rightarrow> (py_exception + unit) \<times> event list" where
  "run_from_model_name self model_name opts =
     (Inl (NotImplementedError ''This method is not implemented yet for BigQueryDryRunner''), [])"

subsection \<open>The constructor\<close>

text \<open>
  \<open>__init__\<close> builds the client, loads the configuration, resolves the working directory
  and computes the target directory, in this order; the first exception ends it.
\<close>

definition get_dbt_project_config :: "world \<Rightarrow> py_exception + (string \<times> string) list" where
  "get_dbt_project_config w = project_yml w"

definition BigQueryDryRunner ::
  "world \<Rightarrow> string \<Rightarrow> string option \<Rightarrow> string \<Rightarrow> py_exception + runner" where
  "BigQueryDryRunner w project target_dir location =
     (case new_client w project location of
        Inl err \<Rightarrow> Inl err
      | Inr c \<Rightarrow>
          (case get_dbt_project_config w of
             Inl err \<Rightarrow> Inl err
           | Inr config \<Rightarrow>
               (case get_dbt_target_dir (cwd w) config target_dir of
                  Inl err \<Rightarrow> Inl err
                | Inr d \<Rightarrow>
                    Inr \<lparr>client = c, dbt_project_config = config,
                         root_path = cwd w, dbt_target_dir = d\<rparr>)))"

subsection \<open>The thread pool of \<open>run_all_models\<close>\<close>

text \<open>
  One future per submitted model: \<open>None\<close> while it is pending, the result of its call of
  \<open>run_from_model\<close> with the events of that call once it is done. The units share
  nothing, so a unit's result does not depend on when it runs. \<open>order\<close> is the order in
  which the futures happen to complete; \<open>as_completed\<close> yields every future once, in
  that order, and the futures \<open>order\<close> does not name after them.
\<close>

type_synonym unit_result = "(py_exception + query_job) \<times> event list"

type_synonym pool = "unit_result option list"

definition as_completed :: "nat \<Rightarrow> nat list \<Rightarrow> nat list" where
  "as_completed n order =
     (let named = rev (remdups (rev (filter (\<lambda>i. i < n) order)))
      in named @ filter (\<lambda>i. i \<notin> set named) [0..<n])"

definition complete :: "world \<Rightarrow> runner \<Rightarrow> path list \<Rightarrow> pool \<Rightarrow> nat \<Rightarrow> pool" where
  "complete w self models futures i =
     (if i < length futures \<and> i < length models \<and> futures ! i = None
      then futures[i := Some (run_from_model w self (Str (str_of_path (models ! i))) [])]
      else futures)"

text \<open>
  The loop \<open>for future in as_completed(futures): future.result()\<close>: it stops at the
  first future that holds an exception, which \<open>result()\<close> raises again.
\<close>

fun consume ::
  "world \<Rightarrow> runner \<Rightarrow> path list \<Rightarrow> pool \<Rightarrow> nat list \<Rightarrow> pool \<times> py_exception option" where
  "consume w self models futures [] = (futures, None)"
| "consume w self models futures (i # rest) =
     (let ran = complete w self models futures i
      in case (if i < length ran then ran ! i else None) of
           Some (Inl err, evs) \<Rightarrow> (ran, Some err)
         | _ \<Rightarrow> consume w self models ran rest)"

text \<open>Leaving the \<open>with\<close> block: \<open>shutdown(wait=True)\<close> runs what is still pending.\<close>

definition shutdown :: "world \<Rightarrow> runner \<Rightarrow> path list \<Rightarrow> pool \<Rightarrow> pool" where
  "shutdown w self models futures = foldl (complete w self models) futures [0..<length futures]"

definition run_all_models :: "world \<Rightarrow> runner \<Rightarrow> nat list \<Rightarrow> (py_exception + unit) \<times> pool" where
  "run_all_models w self order =
     (let models = get_compiled_models w self;
          submitted = replicate (length models) None;
          looped = consume w self models submitted (as_completed (length models) order);
          joined = shutdown w self models (fst looped)
      in (case snd looped of None \<Rightarrow> Inr () | Some err \<Rightarrow> Inl err, joined))"

text \<open>
  The unit that \<open>run_all_models\<close> submits for a model, and the pools that can arise
  from the submitted one: every future is pending or holds the result of its own unit.
\<close>

definition unit_of :: "world \<Rightarrow> runner \<Rightarrow> path \<Rightarrow> unit_result" where
  "unit_of w self node = run_from_model w self (Str (str_of_path node)) []"

definition settled :: "world \<Rightarrow> runner \<Rightarrow> path list \<Rightarrow> pool \<Rightarrow> bool" where
  "settled w self models futures \<longleftrightarrow>
     length futures = length models \<and>
     (\<forall>i < length models. futures ! i = None \<or> futures ! i = Some (unit_of w self (models ! i)))"

text \<open>A tree in which every entry name is a single path segment, as directory entries are.\<close>

fun plain_names :: "fs_node \<Rightarrow> bool" where
  "plain_names (File c) = True"
| "plain_names (Dir es) = list_all (\<lambda>e. plain (fst e) \<and> plain_names (snd e)) es"

section \<open>The command line (hooks.py)\<close>

text \<open>
  What the process has printed on standard output and the batches it has run, each with
  the target directory and the pool it ended with.
\<close>

record proc =
  stdout :: "string list"
  batches :: "(path \<times> pool) list"

text \<open>
  \<open>dry_run_incremental_models\<close> and \<open>dry_run_full_refresh_models\<close> differ in the label
  and in the line the second prints first; \<open>dry_run_models\<close> is what they share.
\<close>

definition dry_run_models ::
  "string \<Rightarrow> world \<Rightarrow> nat list \<Rightarrow> proc \<Rightarrow> (py_exception + unit) \<times> proc" where
  "dry_run_models label w order st =
     (case BigQueryDryRunner w ''c4-links-ecollab-dev'' (Some label) ''EU'' of
        Inl err \<Rightarrow> (Inl err, st)
      | Inr dry_runner \<Rightarrow>
          (let r = run_all_models w dry_runner order
           in (fst r, st\<lparr>batches := batches st @ [(dbt_target_dir dry_runner, snd r)]\<rparr>)))"

definition dry_run_incremental_models ::
  "world \<Rightarrow> nat list \<Rightarrow> proc \<Rightarrow> (py_exception + unit) \<times> proc" where
  "dry_run_incremental_models w order st = dry_run_models ''incremental'' w order st"

definition dry_run_full_refresh_models ::
  "world \<Rightarrow> nat list \<Rightarrow> proc \<Rightarrow> (py_exception + unit) \<times> proc" where
  "dry_run_full_refresh_models w order st =
     dry_run_models ''full_refresh'' w order
       (st\<lparr>stdout := stdout st @ [''Running full refresh models'']\<rparr>)"

text \<open>
  How the process ends: an exception nobody catches is printed as a traceback on standard
  error and the exit code is 1; \<open>sys.exit(1)\<close> gives exit code 1 with no traceback.
\<close>

record exit_state =
  printed :: "string list"
  traceback :: "py_exception option"
  exit_code :: nat
  performed :: "(path \<times> pool) list"

definition finish :: "(py_exception + unit) \<times> proc \<Rightarrow> exit_state" where
  "finish r =
     (case fst r of
        Inl err \<Rightarrow> \<lparr>printed = stdout (snd r), traceback = Some err, exit_code = 1,
                    performed = batches (snd r)\<rparr>
      | Inr u \<Rightarrow> \<lparr>printed = stdout (snd r), traceback = None, exit_code = 0,
                  performed = batches (snd r)\<rparr>)"

text \<open>
  The body under \<open>if __name__ == "__main__"\<close>: the incremental batch is run first,
  whatever the arguments are, and \<open>sys.argv[1]\<close> is read after it. \<open>order1\<close> and
  \<open>order2\<close> are the orders of completion of the first and of the second batch.
\<close>

definition usage :: string where
  "usage = ''Please provide a valid argument: `incremental` or `full_refresh`''"

definition main :: "world \<Rightarrow> string list \<Rightarrow> nat list \<Rightarrow> nat list \<Rightarrow> exit_state" where
  "main w argv order1 order2 =
     (case dry_run_incremental_models w order1 \<lparr>stdout = [], batches = []\<rparr> of
        (Inl err, st) \<Rightarrow> finish (Inl err, st)
      | (Inr u, st) \<Rightarrow>
          (case argv of
             prog # arg # others \<Rightarrow>
               if arg = ''incremental'' then finish (dry_run_incremental_models w order2 st)
               else if arg = ''full_refresh'' then finish (dry_run_full_refresh_models w order2 st)
               else \<lparr>printed = stdout st @ [usage], traceback = None, exit_code = 1,
                     performed = batches st\<rparr>
           | _ \<Rightarrow> finish (Inl IndexError, st)))"

section \<open>A small project, for the concrete cases\<close>

definition example_service :: "string \<Rightarrow> job_config \<Rightarrow> py_exception + query_job" where
  "example_service sql cfg =
     (if sql = ''select 1'' then Inr (QueryJob ''job-1'')
      else if sql = ''select nope''
      then Inl (BadRequest [[(''reason'', ''invalidQuery''), (''message'', ''Unrecognized name: nope'')]])
      else Inl (TransportError ''503 Service Unavailable''))"

definition example_models :: fs_node where
  "example_models =
     Dir [(''a.sql'', File (Inr ''select 1'')),
          (''b'', Dir [(''bad.sql'', File (Inr ''select nope''))])]"

definition example_valid_models :: fs_node where
  "example_valid_models =
     Dir [(''README.md'', File (Inr ''notes'')),
          (''a.sql'', File (Inr ''select 1'')),
          (''old.sql'', Dir []),
          (''c'', Dir [(''d.sql'', File (Inr ''select 1''))])]"

definition example_no_models :: fs_node where
  "example_no_models = Dir [(''README.md'', File (Inr ''notes'')), (''old.sql'', Dir [])]"

definition example_world :: world where
  "example_world =
     \<lparr>fs_root =
        Dir [(''w'',
          Dir [(''target'',
                 Dir [(''incremental'',
                        Dir [(''compiled'',
                               Dir [(''shop'', Dir [(''models'', example_models)]),
                                    (''valid_shop'', Dir [(''models'', example_valid_models)])])]),
                      (''compiled'',
                        Dir [(''shop'', Dir [(''models'', example_valid_models)]),
                             (''empty_shop'', Dir [(''models'', example_no_models)])])]),
               (''notes'', Dir [(''q.sql'', File (Inr ''select 1''))])])],
      cwd = [''/'', ''w''],
      project_yml = Inr [(''name'', ''shop'')],
      new_client = (\<lambda>project location. Inr example_service)\<rparr>"

definition example_runner :: runner where
  "example_runner =
     \<lparr>client = example_service, dbt_project_config = [(''name'', ''shop'')],
      root_path = [''/'', ''w''],
      dbt_target_dir = [''/'', ''w'', ''target'', ''incremental'', ''compiled'', ''shop'', ''models'']\<rparr>"

definition example_default_runner :: runner where
  "example_default_runner =
     \<lparr>client = example_service, dbt_project_config = [(''name'', ''shop'')],
      root_path = [''/'', ''w''],
      dbt_target_dir = [''/'', ''w'', ''target'', ''compiled'', ''shop'', ''models'']\<rparr>"

definition example_full_refresh_runner :: runner where
  "example_full_refresh_runner =
     \<lparr>client = example_service, dbt_project_config = [(''name'', ''shop'')],
      root_path = [''/'', ''w''],
      dbt_target_dir = [''/'', ''w'', ''target'', ''full_refresh'', ''compiled'', ''shop'', ''models'']\<rparr>"

definition example_empty_world :: world where
  "example_empty_world = example_world\<lparr>project_yml := Inr [(''name'', ''empty_shop'')]\<rparr>"

definition example_empty_runner :: runner where
  "example_empty_runner =
     \<lparr>client = example_service, dbt_project_config = [(''name'', ''empty_shop'')],
      root_path = [''/'', ''w''],
      dbt_target_dir = [''/'', ''w'', ''target'', ''compiled'', ''empty_shop'', ''models'']\<rparr>"

definition example_cli_world :: world where
  "example_cli_world = example_world\<lparr>project_yml := Inr [(''name'', ''valid_shop'')]\<rparr>"

definition example_cli_runner :: runner where
  "example_cli_runner =
     \<lparr>client = example_service, dbt_project_config = [(''name'', ''valid_shop'')],
      root_path = [''/'', ''w''],
      dbt_target_dir =
        [''/'', ''w'', ''target'', ''incremental'', ''compiled'', ''valid_shop'', ''models'']\<rparr>"

definition example_cli_full_refresh_runner :: runner where
  "example_cli_full_refresh_runner =
     \<lparr>client = example_service, dbt_project_config = [(''name'', ''valid_shop'')],
      root_path = [''/'', ''w''],
      dbt_target_dir =
        [''/'', ''w'', ''target'', ''full_refresh'', ''compiled'', ''valid_shop'', ''models'']\<rparr>"

definition example_cli_pool :: pool where
  "example_cli_pool =
     [Some (Inr (QueryJob ''job-1''),
        [Query ''select 1'' \<lparr>dry_run = True, options = []\<rparr>, LogInfo ''Model models/a.sql is valid.'']),
      Some (Inr (QueryJob ''job-1''),
        [Query ''select 1'' \<lparr>dry_run = True, options = []\<rparr>, LogInfo ''Model models/c/d.sql is valid.''])]"

section \<open>Properties\<close>

subsection \<open>Paths\<close>

lemma split_sep_nonempty: "split_sep s \<noteq> []"
  by (induction s) (auto split: list.splits)

lemma split_sep_plain: "CHR ''/'' \<notin> set seg \<Longrightarrow> split_sep seg = [seg]"
  by (induction seg) (auto split: list.splits)

lemma split_sep_no_sep: "seg \<in> set (split_sep s) \<Longrightarrow> CHR ''/'' \<notin> set seg"
  by (induction s arbitrary: seg) (auto split: list.splits if_splits)

lemma split_sep_append: "split_sep (s @ CHR ''/'' # t) = split_sep s @ split_sep t"
  by (induction s) (auto split: list.splits simp: split_sep_nonempty)

lemma anchor_plain: "plain seg \<Longrightarrow> anchor seg = []"
  by (cases seg) (auto simp: anchor_def plain_def)

lemma Path_plain: "plain seg \<Longrightarrow> Path seg = [seg]"
  unfolding plain_def Path_def anchor_def by (cases seg) (auto simp: split_sep_plain)

lemma path_div_plain: "plain seg \<Longrightarrow> path_div p seg = p @ [seg]"
  by (simp add: path_div_def anchor_plain Path_plain)

lemma anchor_cases: "anchor s = [] \<or> anchor s = [''/''] \<or> anchor s = [''//'']"
  by (simp add: anchor_def Let_def)

lemma plain_filter_split: "list_all plain (filter (\<lambda>seg. seg \<noteq> [] \<and> seg \<noteq> ''.'') (split_sep s))"
  by (auto simp: list_all_iff plain_def dest: split_sep_no_sep)

lemma wf_path_plain: "list_all plain segs \<Longrightarrow> wf_path segs"
  by (cases segs) (auto simp: wf_path_def)

lemma wf_path_anchored: "r = ''/'' \<or> r = ''//'' \<Longrightarrow> list_all plain segs \<Longrightarrow> wf_path (r # segs)"
  by (auto simp: wf_path_def)

lemma wf_Path: "wf_path (Path s)"
  using anchor_cases [of s] plain_filter_split [of s]
  unfolding Path_def by (auto intro: wf_path_plain wf_path_anchored)

lemma foldl_path_div_plain: "list_all plain segs \<Longrightarrow> foldl path_div p segs = p @ segs"
  by (induction segs arbitrary: p) (auto simp: path_div_plain)

lemma Path_root1: "Path ''/'' = [''/'']"
  by (simp add: Path_def anchor_def)

lemma Path_root2: "Path ''//'' = [''//'']"
  by (simp add: Path_def anchor_def)

lemma path_div_root1: "path_div p ''/'' = [''/'']"
  by (simp add: path_div_def Path_def anchor_def)

lemma path_div_root2: "path_div p ''//'' = [''//'']"
  by (simp add: path_div_def Path_def anchor_def)

lemma PathJoin_wf: "wf_path p \<Longrightarrow> PathJoin p = p"
  unfolding PathJoin_def wf_path_def
  by (cases p) (auto simp: foldl_path_div_plain path_div_plain path_div_root1 path_div_root2)

lemma list_all_plain_drop: "list_all plain segs \<Longrightarrow> list_all plain (drop i segs)"
  by (auto simp: list_all_iff dest: in_set_dropD)

lemma wf_path_drop: "wf_path p \<Longrightarrow> wf_path (drop i p)"
proof (cases i)
  case 0
  then show "wf_path p \<Longrightarrow> wf_path (drop i p)" by simp
next
  case (Suc j)
  assume "wf_path p"
  then have "list_all plain (drop i p)"
    using Suc by (cases p) (auto simp: wf_path_def list_all_plain_drop)
  then show "wf_path (drop i p)" by (rule wf_path_plain)
qed

lemma join_sep_Cons: "segs \<noteq> [] \<Longrightarrow> join_sep (seg # segs) = seg @ CHR ''/'' # join_sep segs"
  by (cases segs) auto

lemma split_sep_join: "list_all plain segs \<Longrightarrow> segs \<noteq> [] \<Longrightarrow> split_sep (join_sep segs) = segs"
proof (induction segs)
  case Nil
  then show ?case by simp
next
  case (Cons seg segs)
  show ?case
  proof (cases segs)
    case Nil
    with Cons.prems show ?thesis by (simp add: split_sep_plain plain_def)
  next
    case (Cons a list)
    then have "segs \<noteq> []" by simp
    with Cons.prems Cons.IH show ?thesis
      by (simp add: join_sep_Cons split_sep_append split_sep_plain plain_def)
  qed
qed

lemma filter_plain: "list_all plain segs \<Longrightarrow> filter (\<lambda>seg. seg \<noteq> [] \<and> seg \<noteq> ''.'') segs = segs"
  by (induction segs) (auto simp: plain_def)

lemma takeWhile_join_plain:
  "list_all plain segs \<Longrightarrow> takeWhile (\<lambda>c. c = CHR ''/'') (join_sep segs) = []"
proof (cases segs)
  case Nil
  then show ?thesis by simp
next
  case (Cons seg rest)
  assume "list_all plain segs"
  with Cons obtain c cs where "seg = c # cs" and "c \<noteq> CHR ''/''"
    by (cases seg) (auto simp: plain_def)
  then show ?thesis using Cons by (cases rest) auto
qed

lemma anchor_join_plain: "list_all plain segs \<Longrightarrow> anchor (join_sep segs) = []"
  by (simp add: anchor_def takeWhile_join_plain)

lemma filter_split_join:
  "list_all plain segs \<Longrightarrow>
     filter (\<lambda>seg. seg \<noteq> [] \<and> seg \<noteq> ''.'') (split_sep (join_sep segs)) = segs"
  by (cases "segs = []") (simp_all add: split_sep_join filter_plain)

lemma Path_join_plain: "list_all plain segs \<Longrightarrow> segs \<noteq> [] \<Longrightarrow> Path (join_sep segs) = segs"
  by (simp add: Path_def anchor_join_plain split_sep_join filter_plain)

lemma Path_str_root1:
  "list_all plain segs \<Longrightarrow> Path (''/'' @ join_sep segs) = ''/'' # segs"
  by (simp add: Path_def anchor_def takeWhile_join_plain filter_split_join)

lemma Path_str_root2:
  "list_all plain segs \<Longrightarrow> Path (''//'' @ join_sep segs) = ''//'' # segs"
  by (simp add: Path_def anchor_def takeWhile_join_plain filter_split_join)

lemma Path_str: "wf_path p \<Longrightarrow> Path (str_of_path p) = p"
proof (cases p)
  case Nil
  then show ?thesis by (simp add: str_of_path_def Path_def anchor_def)
next
  case (Cons r rest)
  assume wf: "wf_path p"
  then have rest: "list_all plain rest" using Cons by (simp add: wf_path_def)
  consider "r = ''/''" | "r = ''//''" | "r \<noteq> ''/''" "r \<noteq> ''//''" "plain r"
    using wf Cons by (auto simp: wf_path_def)
  then show ?thesis
  proof cases
    case 1
    then show ?thesis using Cons rest Path_str_root1 [of rest] by (simp add: str_of_path_def)
  next
    case 2
    then show ?thesis using Cons rest Path_str_root2 [of rest] by (simp add: str_of_path_def)
  next
    case 3
    then have "list_all plain p" using Cons rest by simp
    then have "Path (join_sep p) = p" using Cons by (simp add: Path_join_plain)
    then show ?thesis using 3 Cons by (simp add: str_of_path_def)
  qed
qed

lemma index_of_None: "index_of xs x = None \<longleftrightarrow> x \<notin> set xs"
  by (induction xs) auto

lemma index_of_Some: "index_of xs x = Some i \<Longrightarrow> drop i xs = dropWhile (\<lambda>y. y \<noteq> x) xs \<and> take i xs = takeWhile (\<lambda>y. y \<noteq> x) xs"
  by (induction xs arbitrary: i) (auto split: if_splits)

subsection \<open>The entry point by model name\<close>

text \<open>
  C8. The by-model-name entry point raises \<open>NotImplementedError\<close> on every input, which is
  not the exception of a rejected query, and it issues no request and writes no log line.
\<close>

theorem run_from_model_name_not_implemented:
  "fst (run_from_model_name self model_name opts) =
     Inl (NotImplementedError ''This method is not implemented yet for BigQueryDryRunner'') \<and>
   fst (run_from_model_name self model_name opts) \<noteq> Inl (BadRequest errors) \<and>
   snd (run_from_model_name self model_name opts) = []"
  by (simp add: run_from_model_name_def)

subsection \<open>Trimming a path to its identity\<close>

lemma trim_path_from_Path:
  "index_of (Path s) parent_dir = Some idx \<Longrightarrow>
     trim_path_from (Path s) parent_dir = Inr (drop idx (Path s))"
  by (simp add: trim_path_from_def PathJoin_wf wf_path_drop wf_Path)

lemma index_of_split:
  "x \<in> set xs \<Longrightarrow>
     \<exists>idx pre suf. index_of xs x = Some idx \<and> xs = pre @ x # suf \<and> x \<notin> set pre \<and> drop idx xs = x # suf"
proof (induction xs)
  case Nil
  then show ?case by simp
next
  case (Cons y ys)
  show ?case
  proof (cases "y = x")
    case True
    then have "index_of (y # ys) x = Some 0 \<and> y # ys = [] @ x # ys \<and> x \<notin> set [] \<and> drop 0 (y # ys) = x # ys"
      by simp
    then show ?thesis by blast
  next
    case False
    with Cons obtain idx pre suf where
      h: "index_of ys x = Some idx" "ys = pre @ x # suf" "x \<notin> set pre" "drop idx ys = x # suf"
      by auto
    with False have "index_of (y # ys) x = Some (Suc idx) \<and> y # ys = (y # pre) @ x # suf \<and>
        x \<notin> set (y # pre) \<and> drop (Suc idx) (y # ys) = x # suf"
      by auto
    then show ?thesis by blast
  qed
qed

lemma index_of_first:
  "x \<notin> set pre \<Longrightarrow> index_of (pre @ x # suf) x = Some (length pre)"
  by (induction pre) auto

text \<open>
  C4, as the code has it. \<open>tuple.index\<close> finds the first segment named \<open>models\<close>: for
  every path with such a segment the reported identity is the rest of the path from that
  first segment on, and a path that ends in \<open>models/a/b.sql\<close> with no earlier segment of
  that name is reported as \<open>models/a/b.sql\<close>.
\<close>

theorem trim_path_from_first_segment:
  "''models'' \<in> set (Path s) \<Longrightarrow>
     (\<exists>pre suf. Path s = pre @ ''models'' # suf \<and> ''models'' \<notin> set pre \<and>
        trim_path_from (Path s) ''models'' = Inr (''models'' # suf)) \<and>
     (\<forall>pre. Path s = pre @ [''models'', ''a'', ''b.sql''] \<and> ''models'' \<notin> set pre \<longrightarrow>
        trim_path_from (Path s) ''models'' = Inr [''models'', ''a'', ''b.sql''] \<and>
        str_of_path [''models'', ''a'', ''b.sql''] = ''models/a/b.sql'')"
proof
  assume "''models'' \<in> set (Path s)"
  then obtain idx pre suf where
    h: "index_of (Path s) ''models'' = Some idx" "Path s = pre @ ''models'' # suf"
       "''models'' \<notin> set pre" "drop idx (Path s) = ''models'' # suf"
    using index_of_split [of "''models''" "Path s"] by blast
  from h(1) h(4) have "trim_path_from (Path s) ''models'' = Inr (''models'' # suf)"
    by (simp add: trim_path_from_Path)
  with h(2) h(3)
  show "\<exists>pre suf. Path s = pre @ ''models'' # suf \<and> ''models'' \<notin> set pre \<and>
        trim_path_from (Path s) ''models'' = Inr (''models'' # suf)"
    by blast
next
  show "\<forall>pre. Path s = pre @ [''models'', ''a'', ''b.sql''] \<and> ''models'' \<notin> set pre \<longrightarrow>
        trim_path_from (Path s) ''models'' = Inr [''models'', ''a'', ''b.sql''] \<and>
        str_of_path [''models'', ''a'', ''b.sql''] = ''models/a/b.sql''"
  proof (intro allI impI)
    fix pre
    assume a: "Path s = pre @ [''models'', ''a'', ''b.sql''] \<and> ''models'' \<notin> set pre"
    then have "index_of (Path s) ''models'' = Some (length pre)"
      using index_of_first [of "''models''" pre "[''a'', ''b.sql'']"] by simp
    then have "trim_path_from (Path s) ''models'' = Inr (drop (length pre) (Path s))"
      by (rule trim_path_from_Path)
    with a show "trim_path_from (Path s) ''models'' = Inr [''models'', ''a'', ''b.sql''] \<and>
        str_of_path [''models'', ''a'', ''b.sql''] = ''models/a/b.sql''"
      by (simp add: str_of_path_def)
  qed
qed

lemma Path_example1:
  "Path ''/w/target/compiled/shop/models/a/b.sql'' =
     [''/'', ''w'', ''target'', ''compiled'', ''shop'', ''models'', ''a'', ''b.sql'']"
  by (simp add: Path_def anchor_def)

lemma Path_example2:
  "Path ''/home/models/w/target/compiled/shop/models/a/b.sql'' =
     [''/'', ''home'', ''models'', ''w'', ''target'', ''compiled'', ''shop'', ''models'', ''a'', ''b.sql'']"
  by (simp add: Path_def anchor_def)

theorem trim_path_from_first_segment_witness:
  "''models'' \<in> set (Path ''/w/target/compiled/shop/models/a/b.sql'') \<and>
   trim_path_from (Path ''/w/target/compiled/shop/models/a/b.sql'') ''models'' =
     Inr [''models'', ''a'', ''b.sql'']"
proof -
  have m: "''models'' \<in> set (Path ''/w/target/compiled/shop/models/a/b.sql'')"
    by (simp add: Path_example1)
  have "Path ''/w/target/compiled/shop/models/a/b.sql'' =
          [''/'', ''w'', ''target'', ''compiled'', ''shop''] @ [''models'', ''a'', ''b.sql''] \<and>
        ''models'' \<notin> set [''/'', ''w'', ''target'', ''compiled'', ''shop'']"
    by (simp add: Path_example1)
  with trim_path_from_first_segment [OF m] m show ?thesis by blast
qed

text \<open>
  C4 as stated fails where the path has an earlier segment named \<open>models\<close>: the project
  below lies in \<open>/home/models/w\<close>, and its model \<open>models/a/b.sql\<close> is reported with the
  whole path from \<open>models/w\<close> on.
\<close>

theorem trim_path_from_earlier_segment:
  "''models'' \<in> set (Path ''/home/models/w/target/compiled/shop/models/a/b.sql'') \<and>
   trim_path_from (Path ''/home/models/w/target/compiled/shop/models/a/b.sql'') ''models'' =
     Inr [''models'', ''w'', ''target'', ''compiled'', ''shop'', ''models'', ''a'', ''b.sql''] \<and>
   trim_path_from (Path ''/home/models/w/target/compiled/shop/models/a/b.sql'') ''models'' \<noteq>
     Inr [''models'', ''a'', ''b.sql'']"
  by (simp add: Path_example2 trim_path_from_def PathJoin_def path_div_def Path_def anchor_def)

lemma trim_path_from_absent:
  "parent_dir \<notin> set p \<Longrightarrow> trim_path_from p parent_dir = Inl ValueError"
  using index_of_None [of p parent_dir] by (simp add: trim_path_from_def)

lemma run_from_model_absent:
  assumes "''models'' \<notin> set (Path s)"
    and "read_text w (str_of_path (Path s)) = Inr sql"
    and "client self sql \<lparr>dry_run = True, options = opts\<rparr> = Inr job \<or>
         client self sql \<lparr>dry_run = True, options = opts\<rparr> = Inl (BadRequest errors)"
  shows "run_from_model w self (Str s) opts =
           (Inl ValueError, [Query sql \<lparr>dry_run = True, options = opts\<rparr>])"
proof -
  have t: "trim_path_from (Path s) ''models'' = Inl ValueError"
    using assms(1) by (rule trim_path_from_absent)
  from assms(3) show ?thesis
  proof
    assume "client self sql \<lparr>dry_run = True, options = opts\<rparr> = Inr job"
    then show ?thesis using assms(2) t by (simp add: run_from_model_def)
  next
    assume "client self sql \<lparr>dry_run = True, options = opts\<rparr> = Inl (BadRequest errors)"
    then show ?thesis using assms(2) t by (simp add: run_from_model_def)
  qed
qed

text \<open>
  C5, as the code has it. For a path with no segment named \<open>models\<close> the trimming
  raises \<open>ValueError\<close> and gives no label. In \<open>run_from_model\<close> the label is computed
  for the log line, after the answer of the service: where the file is readable and the
  service accepts the query or answers \<open>BadRequest\<close>, the request has been issued, then
  the call ends with \<open>ValueError\<close>, and no log line is written.
\<close>

theorem trim_path_from_missing_segment:
  "''models'' \<notin> set (Path s) \<Longrightarrow>
     trim_path_from (Path s) ''models'' = Inl ValueError \<and>
     (\<forall>w self opts sql.
        read_text w (str_of_path (Path s)) = Inr sql \<and>
        (\<exists>job. client self sql \<lparr>dry_run = True, options = opts\<rparr> = Inr job) \<longrightarrow>
        run_from_model w self (Str s) opts =
          (Inl ValueError, [Query sql \<lparr>dry_run = True, options = opts\<rparr>])) \<and>
     (\<forall>w self opts sql.
        read_text w (str_of_path (Path s)) = Inr sql \<and>
        (\<exists>errors. client self sql \<lparr>dry_run = True, options = opts\<rparr> = Inl (BadRequest errors)) \<longrightarrow>
        run_from_model w self (Str s) opts =
          (Inl ValueError, [Query sql \<lparr>dry_run = True, options = opts\<rparr>]))"
proof (intro conjI allI impI)
  assume a: "''models'' \<notin> set (Path s)"
  show "trim_path_from (Path s) ''models'' = Inl ValueError"
    using a by (rule trim_path_from_absent)
  show "run_from_model w self (Str s) opts =
          (Inl ValueError, [Query sql \<lparr>dry_run = True, options = opts\<rparr>])"
    if "read_text w (str_of_path (Path s)) = Inr sql \<and>
        (\<exists>job. client self sql \<lparr>dry_run = True, options = opts\<rparr> = Inr job)"
    for w self opts sql
    using that a run_from_model_absent [of s w sql self opts] by blast
  show "run_from_model w self (Str s) opts =
          (Inl ValueError, [Query sql \<lparr>dry_run = True, options = opts\<rparr>])"
    if "read_text w (str_of_path (Path s)) = Inr sql \<and>
        (\<exists>errors. client self sql \<lparr>dry_run = True, options = opts\<rparr> = Inl (BadRequest errors))"
    for w self opts sql
    using that a run_from_model_absent [of s w sql self opts] by blast
qed

lemma Path_example3: "Path ''/w/notes/q.sql'' = [''/'', ''w'', ''notes'', ''q.sql'']"
  by (simp add: Path_def anchor_def)

lemma read_example3: "read_text example_world ''/w/notes/q.sql'' = Inr ''select 1''"
  by (simp add: read_text_def Path_example3 fs_lookup_def resolve_def example_world_def)

lemma str_example3: "str_of_path [''/'', ''w'', ''notes'', ''q.sql''] = ''/w/notes/q.sql''"
  by (simp add: str_of_path_def)

text \<open>
  C5 as stated fails on the order: for the file \<open>/w/notes/q.sql\<close>, which has no segment
  \<open>models\<close>, the dry-run request is issued first and the error comes after it.
\<close>

theorem run_from_model_queries_before_trimming:
  "''models'' \<notin> set (Path ''/w/notes/q.sql'') \<and>
   run_from_model example_world example_runner (Str ''/w/notes/q.sql'') [] =
     (Inl ValueError, [Query ''select 1'' \<lparr>dry_run = True, options = []\<rparr>])"
  by (simp add: run_from_model_def Path_example3 str_example3 read_example3
      example_runner_def example_service_def trim_path_from_def)

theorem trim_path_from_missing_segment_witness:
  "''models'' \<notin> set (Path ''/w/notes/q.sql'') \<and>
   trim_path_from (Path ''/w/notes/q.sql'') ''models'' = Inl ValueError"
proof -
  have a: "''models'' \<notin> set (Path ''/w/notes/q.sql'')"
    by (simp add: Path_example3)
  from trim_path_from_missing_segment [OF a] a show ?thesis by blast
qed

subsection \<open>The target directory\<close>

lemma path_div4:
  "plain a \<Longrightarrow> plain b \<Longrightarrow> plain c \<Longrightarrow> plain d \<Longrightarrow>
     path_div (path_div (path_div (path_div root a) b) c) d = root @ [a, b, c, d]"
  by (simp add: path_div_plain)

lemma plain_literals: "plain ''target''" "plain ''compiled''" "plain ''models''"
  by (simp_all add: plain_def)

text \<open>
  C10. With the project name \<open>name\<close> read from the \<open>name\<close> field of the configuration,
  the target directory is \<open>root/target/compiled/name/models\<close> without a label and
  \<open>root/target/t/compiled/name/models\<close> with the label \<open>t\<close>, the name and the label
  being single path segments; another configuration with the same \<open>name\<close> field gives
  the same directory.
\<close>

theorem get_dbt_target_dir_layout:
  "map_of config ''name'' = Some name \<Longrightarrow> plain name \<Longrightarrow>
     get_dbt_target_dir root config None =
       Inr (root @ [''target'', ''compiled'', name, ''models'']) \<and>
     (\<forall>t. plain t \<longrightarrow>
        get_dbt_target_dir root config (Some t) =
          Inr (root @ [''target'', t, ''compiled'', name, ''models''])) \<and>
     (\<forall>config' label. map_of config' ''name'' = Some name \<longrightarrow>
        get_dbt_target_dir root config' label = get_dbt_target_dir root config label)"
proof (intro conjI allI impI)
  assume n: "map_of config ''name'' = Some name" and p: "plain name"
  show "get_dbt_target_dir root config None =
       Inr (root @ [''target'', ''compiled'', name, ''models''])"
    using n p by (simp add: get_dbt_target_dir_def path_div_plain plain_literals)
  show "get_dbt_target_dir root config (Some t) =
          Inr (root @ [''target'', t, ''compiled'', name, ''models''])" if "plain t" for t
  proof -
    from that have "t \<noteq> []" by (simp add: plain_def)
    with n p that show ?thesis
      by (simp add: get_dbt_target_dir_def path_div_plain plain_literals)
  qed
  show "get_dbt_target_dir root config' label = get_dbt_target_dir root config label"
    if "map_of config' ''name'' = Some name" for config' label
    using n that by (simp add: get_dbt_target_dir_def)
qed

theorem get_dbt_target_dir_layout_witness:
  "map_of [(''name'', ''shop'')] ''name'' = Some ''shop'' \<and> plain ''shop'' \<and> plain ''incremental'' \<and>
   get_dbt_target_dir [''/'', ''w''] [(''name'', ''shop'')] None =
     Inr [''/'', ''w'', ''target'', ''compiled'', ''shop'', ''models''] \<and>
   get_dbt_target_dir [''/'', ''w''] [(''name'', ''shop'')] (Some ''incremental'') =
     Inr [''/'', ''w'', ''target'', ''incremental'', ''compiled'', ''shop'', ''models'']"
proof -
  have a: "map_of [(''name'', ''shop'')] ''name'' = Some ''shop''" by simp
  have b: "plain ''shop''" by (simp add: plain_def)
  have c: "plain ''incremental''" by (simp add: plain_def)
  note layout = get_dbt_target_dir_layout [OF a b, of "[''/'', ''w'']"]
  from layout have d: "get_dbt_target_dir [''/'', ''w''] [(''name'', ''shop'')] None =
      Inr ([''/'', ''w''] @ [''target'', ''compiled'', ''shop'', ''models''])"
    by (rule conjunct1)
  from layout have f: "\<forall>t. plain t \<longrightarrow>
      get_dbt_target_dir [''/'', ''w''] [(''name'', ''shop'')] (Some t) =
        Inr ([''/'', ''w''] @ [''target'', t, ''compiled'', ''shop'', ''models''])"
    by (rule conjunct1 [OF conjunct2])
  have e: "get_dbt_target_dir [''/'', ''w''] [(''name'', ''shop'')] (Some ''incremental'') =
        Inr ([''/'', ''w''] @ [''target'', ''incremental'', ''compiled'', ''shop'', ''models''])"
    using c f by blast
  from a b c d e show ?thesis by simp
qed

subsection \<open>What the adapter reports as a validation failure\<close>

lemma first_message_Inr:
  "first_message errors = Inr m \<Longrightarrow>
     \<exists>entry rest. errors = entry # rest \<and> map_of entry ''message'' = Some m"
  by (auto simp: first_message_def split: list.splits option.splits)

lemma run_transport:
  assumes "client self sql \<lparr>dry_run = True, options = opts\<rparr> = Inl e"
    and "\<forall>errors. e \<noteq> BadRequest errors"
  shows "run self sql opts = (Inl e, [Query sql \<lparr>dry_run = True, options = opts\<rparr>])"
  using assms by (cases e) (simp_all add: run_def)

lemma run_from_model_transport:
  assumes "read_text w (str_of_path (case arg of Str s \<Rightarrow> Path s | PathObj p \<Rightarrow> p)) = Inr sql"
    and "client self sql \<lparr>dry_run = True, options = opts\<rparr> = Inl e"
    and "\<forall>errors. e \<noteq> BadRequest errors"
  shows "run_from_model w self arg opts =
           (Inl e, [Query sql \<lparr>dry_run = True, options = opts\<rparr>])"
  using assms by (cases e) (simp_all add: run_from_model_def)

lemma run_LogError:
  assumes "LogError msg \<in> set (snd (run self sql opts))"
  shows "\<exists>entry rest m.
           client self sql \<lparr>dry_run = True, options = opts\<rparr> = Inl (BadRequest (entry # rest)) \<and>
           map_of entry ''message'' = Some m \<and>
           msg = ''Error running the dry run for provided query. The sever returned an error: '' @ m \<and>
           fst (run self sql opts) = Inl (BadRequest (entry # rest))"
proof (cases "client self sql \<lparr>dry_run = True, options = opts\<rparr>")
  case (Inr job)
  with assms show ?thesis by (simp add: run_def)
next
  case (Inl e)
  show ?thesis
  proof (cases e)
    case (BadRequest errors)
    show ?thesis
    proof (cases "first_message errors")
      case (Inl err)
      with assms \<open>client self sql \<lparr>dry_run = True, options = opts\<rparr> = Inl e\<close> BadRequest
      show ?thesis by (simp add: run_def)
    next
      case (Inr m)
      then obtain entry rest where "errors = entry # rest" "map_of entry ''message'' = Some m"
        using first_message_Inr by blast
      with assms Inr \<open>client self sql \<lparr>dry_run = True, options = opts\<rparr> = Inl e\<close> BadRequest
      show ?thesis by (simp add: run_def)
    qed
  qed (use assms Inl in \<open>simp_all add: run_def\<close>)
qed

lemma run_from_model_LogError:
  assumes "LogError msg \<in> set (snd (run_from_model w self arg opts))"
  shows "\<exists>sql entry rest m shown.
           client self sql \<lparr>dry_run = True, options = opts\<rparr> = Inl (BadRequest (entry # rest)) \<and>
           map_of entry ''message'' = Some m \<and>
           msg = ''Error running the dry run for model '' @ str_of_path shown
                   @ ''. The sever returned an error: '' @ m \<and>
           fst (run_from_model w self arg opts) = Inl (BadRequest (entry # rest))"
proof -
  define mp where "mp = (case arg of Str s \<Rightarrow> Path s | PathObj p \<Rightarrow> p)"
  show ?thesis
  proof (cases "read_text w (str_of_path mp)")
    case (Inl err)
    with assms show ?thesis by (simp add: run_from_model_def mp_def)
  next
    case (Inr sql)
    note rd = this
    show ?thesis
    proof (cases "client self sql \<lparr>dry_run = True, options = opts\<rparr>")
      case (Inr job)
      with assms rd show ?thesis
        by (cases "trim_path_from mp ''models''") (simp_all add: run_from_model_def mp_def)
    next
      case (Inl e)
      note cl = this
      show ?thesis
      proof (cases e)
        case (BadRequest errors)
        show ?thesis
        proof (cases "trim_path_from mp ''models''")
          case (Inl err)
          with assms rd cl BadRequest show ?thesis by (simp add: run_from_model_def mp_def)
        next
          case (Inr shown)
          note tr = this
          show ?thesis
          proof (cases "first_message errors")
            case (Inl err)
            with assms rd cl BadRequest tr show ?thesis by (simp add: run_from_model_def mp_def)
          next
            case (Inr m)
            then obtain entry rest where
              en: "errors = entry # rest" "map_of entry ''message'' = Some m"
              using first_message_Inr by blast
            have r: "run_from_model w self arg opts =
                (Inl (BadRequest errors),
                 [Query sql \<lparr>dry_run = True, options = opts\<rparr>,
                  LogError (''Error running the dry run for model '' @ str_of_path shown
                    @ ''. The sever returned an error: '' @ m)])"
              using rd cl BadRequest tr Inr by (simp add: run_from_model_def mp_def)
            with assms have "msg = ''Error running the dry run for model '' @ str_of_path shown
                    @ ''. The sever returned an error: '' @ m"
              by simp
            with r en cl BadRequest show ?thesis
              by (intro exI [of _ sql] exI [of _ entry] exI [of _ rest] exI [of _ m]
                  exI [of _ shown]) simp
          qed
        qed
      qed (use assms rd cl in \<open>simp_all add: run_from_model_def mp_def\<close>)
    qed
  qed
qed

text \<open>
  C3. In \<open>run\<close> and in \<open>run_from_model\<close>, an exception of the client that is not a
  \<open>BadRequest\<close> comes out as it is, after the request and with no log line, so it is
  never reported as an invalid query. An error line is logged only where the client
  raised \<open>BadRequest\<close>; it ends with the \<open>message\<close> of the first entry of its errors,
  and the call raises that same \<open>BadRequest\<close>.
\<close>

theorem only_BadRequest_is_reported_invalid:
  "(\<forall>e. client self sql \<lparr>dry_run = True, options = opts\<rparr> = Inl e \<and>
         (\<forall>errors. e \<noteq> BadRequest errors) \<longrightarrow>
         run self sql opts = (Inl e, [Query sql \<lparr>dry_run = True, options = opts\<rparr>]) \<and>
         (\<forall>w arg. read_text w (str_of_path (case arg of Str s \<Rightarrow> Path s | PathObj p \<Rightarrow> p)) = Inr sql \<longrightarrow>
            run_from_model w self arg opts =
              (Inl e, [Query sql \<lparr>dry_run = True, options = opts\<rparr>]))) \<and>
   (\<forall>msg. LogError msg \<in> set (snd (run self sql opts)) \<longrightarrow>
      (\<exists>entry rest m.
         client self sql \<lparr>dry_run = True, options = opts\<rparr> = Inl (BadRequest (entry # rest)) \<and>
         map_of entry ''message'' = Some m \<and>
         msg = ''Error running the dry run for provided query. The sever returned an error: '' @ m \<and>
         fst (run self sql opts) = Inl (BadRequest (entry # rest)))) \<and>
   (\<forall>w arg msg. LogError msg \<in> set (snd (run_from_model w self arg opts)) \<longrightarrow>
      (\<exists>sql' entry rest m shown.
         client self sql' \<lparr>dry_run = True, options = opts\<rparr> = Inl (BadRequest (entry # rest)) \<and>
         map_of entry ''message'' = Some m \<and>
         msg = ''Error running the dry run for model '' @ str_of_path shown
                 @ ''. The sever returned an error: '' @ m \<and>
         fst (run_from_model w self arg opts) = Inl (BadRequest (entry # rest))))"
  using run_transport [of self sql opts] run_from_model_transport [of _ _ sql self opts]
    run_LogError [of _ self sql opts] run_from_model_LogError [of _ _ self _ opts]
  by blast

lemma Path_example_bad:
  "Path ''/w/target/incremental/compiled/shop/models/b/bad.sql'' =
     [''/'', ''w'', ''target'', ''incremental'', ''compiled'', ''shop'', ''models'', ''b'', ''bad.sql'']"
  by (simp add: Path_def anchor_def)

lemma str_example_bad:
  "str_of_path [''/'', ''w'', ''target'', ''incremental'', ''compiled'', ''shop'', ''models'', ''b'', ''bad.sql'']
     = ''/w/target/incremental/compiled/shop/models/b/bad.sql''"
  by (simp add: str_of_path_def)

lemma read_example_bad:
  "read_text example_world ''/w/target/incremental/compiled/shop/models/b/bad.sql'' = Inr ''select nope''"
  by (simp add: read_text_def Path_example_bad fs_lookup_def resolve_def example_world_def
      example_models_def)

lemma trim_example_bad:
  "trim_path_from [''/'', ''w'', ''target'', ''incremental'', ''compiled'', ''shop'', ''models'', ''b'', ''bad.sql'']
     ''models'' = Inr [''models'', ''b'', ''bad.sql'']"
  by (simp add: trim_path_from_def PathJoin_def path_div_def Path_def anchor_def)

lemma run_from_model_example_bad:
  "run_from_model example_world example_runner
      (Str ''/w/target/incremental/compiled/shop/models/b/bad.sql'') [] =
     (Inl (BadRequest [[(''reason'', ''invalidQuery''), (''message'', ''Unrecognized name: nope'')]]),
      [Query ''select nope'' \<lparr>dry_run = True, options = []\<rparr>,
       LogError ''Error running the dry run for model models/b/bad.sql. The sever returned an error: Unrecognized name: nope''])"
  by (simp add: run_from_model_def Path_example_bad str_example_bad read_example_bad
      trim_example_bad example_runner_def example_service_def first_message_def str_of_path_def)

theorem only_BadRequest_is_reported_invalid_witness:
  "client example_runner ''select 2'' \<lparr>dry_run = True, options = []\<rparr> =
     Inl (TransportError ''503 Service Unavailable'') \<and>
   run example_runner ''select 2'' [] =
     (Inl (TransportError ''503 Service Unavailable''),
      [Query ''select 2'' \<lparr>dry_run = True, options = []\<rparr>]) \<and>
   LogError ''Error running the dry run for provided query. The sever returned an error: Unrecognized name: nope''
     \<in> set (snd (run example_runner ''select nope'' [])) \<and>
   client example_runner ''select nope'' \<lparr>dry_run = True, options = []\<rparr> =
     Inl (BadRequest [[(''reason'', ''invalidQuery''), (''message'', ''Unrecognized name: nope'')]]) \<and>
   LogError ''Error running the dry run for model models/b/bad.sql. The sever returned an error: Unrecognized name: nope''
     \<in> set (snd (run_from_model example_world example_runner
          (Str ''/w/target/incremental/compiled/shop/models/b/bad.sql'') [])) \<and>
   (\<exists>errors. fst (run_from_model example_world example_runner
          (Str ''/w/target/incremental/compiled/shop/models/b/bad.sql'') []) = Inl (BadRequest errors))"
proof -
  have a: "client example_runner ''select 2'' \<lparr>dry_run = True, options = []\<rparr> =
     Inl (TransportError ''503 Service Unavailable'')"
    by (simp add: example_runner_def example_service_def)
  have b: "\<forall>errors. TransportError ''503 Service Unavailable'' \<noteq> BadRequest errors"
    by simp
  have c: "LogError ''Error running the dry run for provided query. The sever returned an error: Unrecognized name: nope''
     \<in> set (snd (run example_runner ''select nope'' []))"
    by (simp add: run_def example_runner_def example_service_def first_message_def)
  have d: "LogError ''Error running the dry run for model models/b/bad.sql. The sever returned an error: Unrecognized name: nope''
     \<in> set (snd (run_from_model example_world example_runner
          (Str ''/w/target/incremental/compiled/shop/models/b/bad.sql'') []))"
    by (simp add: run_from_model_example_bad)
  have e: "run example_runner ''select 2'' [] =
     (Inl (TransportError ''503 Service Unavailable''),
      [Query ''select 2'' \<lparr>dry_run = True, options = []\<rparr>])"
    using only_BadRequest_is_reported_invalid [of example_runner "''select 2''" "[]"] a b
    by blast
  have f: "client example_runner ''select nope'' \<lparr>dry_run = True, options = []\<rparr> =
     Inl (BadRequest [[(''reason'', ''invalidQuery''), (''message'', ''Unrecognized name: nope'')]])"
    by (simp add: example_runner_def example_service_def)
  have g: "\<exists>errors. fst (run_from_model example_world example_runner
          (Str ''/w/target/incremental/compiled/shop/models/b/bad.sql'') []) = Inl (BadRequest errors)"
    using only_BadRequest_is_reported_invalid [of example_runner "''select nope''" "[]"] d
    by blast
  from a e c f d g show ?thesis by blast
qed

subsection \<open>The pool\<close>

lemma complete_length: "length (complete w self models futures i) = length futures"
  by (simp add: complete_def)

lemma complete_settled:
  "settled w self models futures \<Longrightarrow> settled w self models (complete w self models futures i)"
  by (auto simp: settled_def complete_def unit_of_def nth_list_update)

lemma complete_at:
  "settled w self models futures \<Longrightarrow> i < length models \<Longrightarrow>
     complete w self models futures i ! i = Some (unit_of w self (models ! i))"
  by (auto simp: settled_def complete_def unit_of_def)

lemma complete_keeps:
  "futures ! j = Some x \<Longrightarrow> complete w self models futures i ! j = Some x"
  by (auto simp: complete_def nth_list_update)

lemma foldl_complete_settled:
  "settled w self models futures \<Longrightarrow>
     settled w self models (foldl (complete w self models) futures is)"
  by (induction "is" arbitrary: futures) (auto simp: complete_settled)

lemma foldl_complete_keeps:
  "futures ! j = Some x \<Longrightarrow> foldl (complete w self models) futures is ! j = Some x"
  by (induction "is" arbitrary: futures) (auto simp: complete_keeps)

lemma foldl_complete_at:
  "settled w self models futures \<Longrightarrow> i \<in> set is \<Longrightarrow> i < length models \<Longrightarrow>
     foldl (complete w self models) futures is ! i = Some (unit_of w self (models ! i))"
proof (induction "is" arbitrary: futures)
  case Nil
  then show ?case by simp
next
  case (Cons a "is")
  show ?case
  proof (cases "a = i")
    case True
    with Cons.prems have "complete w self models futures a ! i = Some (unit_of w self (models ! i))"
      by (simp add: complete_at)
    then show ?thesis by (simp add: foldl_complete_keeps)
  next
    case False
    with Cons.prems have "i \<in> set is" by simp
    with Cons.IH [of "complete w self models futures a"] Cons.prems show ?thesis
      by (simp add: complete_settled)
  qed
qed

lemma shutdown_all:
  assumes "settled w self models futures"
  shows "shutdown w self models futures = map (\<lambda>m. Some (unit_of w self m)) models"
proof (rule nth_equalityI)
  have len: "length futures = length models" using assms by (simp add: settled_def)
  have s: "settled w self models (shutdown w self models futures)"
    unfolding shutdown_def using assms by (rule foldl_complete_settled)
  then show "length (shutdown w self models futures) = length (map (\<lambda>m. Some (unit_of w self m)) models)"
    by (simp add: settled_def)
  fix i assume "i < length (shutdown w self models futures)"
  with s have i: "i < length models" by (simp add: settled_def)
  then have "i \<in> set [0..<length futures]" using len by simp
  then have "shutdown w self models futures ! i = Some (unit_of w self (models ! i))"
    unfolding shutdown_def using assms i by (simp add: foldl_complete_at)
  with i show "shutdown w self models futures ! i = map (\<lambda>m. Some (unit_of w self m)) models ! i"
    by simp
qed

lemma consume_settled:
  "settled w self models futures \<Longrightarrow>
     settled w self models (fst (consume w self models futures is))"
proof (induction "is" arbitrary: futures)
  case Nil
  then show ?case by simp
next
  case (Cons i "is")
  then have "settled w self models (complete w self models futures i)"
    by (simp add: complete_settled)
  with Cons.IH [of "complete w self models futures i"] show ?case
    by (auto simp: Let_def split: option.splits sum.splits prod.splits)
qed

lemma consume_None:
  "settled w self models futures \<Longrightarrow> snd (consume w self models futures is) = None \<Longrightarrow>
     i \<in> set is \<Longrightarrow> i < length models \<Longrightarrow>
     \<exists>job. fst (unit_of w self (models ! i)) = Inr job"
proof (induction "is" arbitrary: futures)
  case Nil
  then show ?case by simp
next
  case (Cons a "is")
  let ?ran = "complete w self models futures a"
  have s: "settled w self models ?ran" using Cons.prems(1) by (rule complete_settled)
  show ?case
  proof (cases "a < length models")
    case True
    then have at: "?ran ! a = Some (unit_of w self (models ! a))"
      using Cons.prems(1) by (simp add: complete_at)
    have len: "length ?ran = length models" using s by (simp add: settled_def)
    show ?thesis
    proof (cases "fst (unit_of w self (models ! a))")
      case (Inl err)
      with at len True Cons.prems(2) show ?thesis
        by (cases "unit_of w self (models ! a)") (simp add: Let_def)
    next
      case (Inr job)
      with at len True Cons.prems(2) have n: "snd (consume w self models ?ran is) = None"
        by (cases "unit_of w self (models ! a)") (simp add: Let_def)
      show ?thesis
      proof (cases "i = a")
        case True
        with Inr show ?thesis by blast
      next
        case False
        with Cons.prems have "i \<in> set is" by simp
        with Cons.IH [OF s n] Cons.prems(4) show ?thesis by blast
      qed
    qed
  next
    case False
    have len: "length ?ran = length models" using s by (simp add: settled_def)
    with False Cons.prems(2) have n: "snd (consume w self models ?ran is) = None"
      by (simp add: Let_def)
    from False Cons.prems have "i \<in> set is" by auto
    with Cons.IH [OF s n] Cons.prems(4) show ?thesis by blast
  qed
qed

lemma consume_Some:
  "settled w self models futures \<Longrightarrow> snd (consume w self models futures is) = Some err \<Longrightarrow>
     \<exists>i \<in> set is. i < length models \<and> fst (unit_of w self (models ! i)) = Inl err"
proof (induction "is" arbitrary: futures)
  case Nil
  then show ?case by simp
next
  case (Cons a "is")
  let ?ran = "complete w self models futures a"
  have s: "settled w self models ?ran" using Cons.prems(1) by (rule complete_settled)
  have len: "length ?ran = length models" using s by (simp add: settled_def)
  show ?case
  proof (cases "a < length models")
    case True
    then have at: "?ran ! a = Some (unit_of w self (models ! a))"
      using Cons.prems(1) by (simp add: complete_at)
    show ?thesis
    proof (cases "fst (unit_of w self (models ! a))")
      case (Inl e)
      with at len True Cons.prems(2) have "e = err"
        by (cases "unit_of w self (models ! a)") (simp add: Let_def)
      with Inl True show ?thesis by auto
    next
      case (Inr job)
      with at len True Cons.prems(2) have "snd (consume w self models ?ran is) = Some err"
        by (cases "unit_of w self (models ! a)") (simp add: Let_def)
      with Cons.IH [OF s] show ?thesis by auto
    qed
  next
    case False
    with len Cons.prems(2) have "snd (consume w self models ?ran is) = Some err"
      by (simp add: Let_def)
    with Cons.IH [OF s] show ?thesis by auto
  qed
qed

lemma set_as_completed: "set (as_completed n order) = {..<n}"
  by (auto simp: as_completed_def Let_def)

lemma settled_replicate: "settled w self models (replicate (length models) None)"
  by (simp add: settled_def)

lemma run_all_models_pool:
  "snd (run_all_models w self order) =
     map (\<lambda>m. Some (unit_of w self m)) (get_compiled_models w self)"
  by (simp add: run_all_models_def Let_def shutdown_all consume_settled settled_replicate)

lemma run_all_models_ok:
  assumes "\<forall>m \<in> set (get_compiled_models w self). \<exists>job. fst (unit_of w self m) = Inr job"
  shows "fst (run_all_models w self order) = Inr ()"
proof (cases "snd (consume w self (get_compiled_models w self)
    (replicate (length (get_compiled_models w self)) None)
    (as_completed (length (get_compiled_models w self)) order))")
  case None
  then show ?thesis by (simp add: run_all_models_def Let_def)
next
  case (Some err)
  then obtain i where "i < length (get_compiled_models w self)"
    "fst (unit_of w self (get_compiled_models w self ! i)) = Inl err"
    using consume_Some [OF settled_replicate] by blast
  with assms show ?thesis by (metis nth_mem sum.distinct(1))
qed

lemma run_all_models_raises:
  assumes "m \<in> set (get_compiled_models w self)" and "fst (unit_of w self m) = Inl err"
  shows "\<exists>e. fst (run_all_models w self order) = Inl e"
proof (cases "snd (consume w self (get_compiled_models w self)
    (replicate (length (get_compiled_models w self)) None)
    (as_completed (length (get_compiled_models w self)) order))")
  case None
  from assms(1) obtain i where i: "i < length (get_compiled_models w self)"
    "get_compiled_models w self ! i = m"
    by (auto simp: in_set_conv_nth)
  then have "i \<in> set (as_completed (length (get_compiled_models w self)) order)"
    by (simp add: set_as_completed)
  with consume_None [OF settled_replicate None] i
  have "\<exists>job. fst (unit_of w self m) = Inr job" by blast
  with assms(2) show ?thesis by simp
next
  case (Some e)
  then show ?thesis by (simp add: run_all_models_def Let_def)
qed

subsection \<open>The models found under the target directory\<close>

lemma lookup_entry_mem: "lookup_entry es n = Some child \<Longrightarrow> (n, child) \<in> set es"
  by (induction es n rule: lookup_entry.induct) (auto split: if_splits)

lemma descend_plain_names:
  "descend node ns = Some found \<Longrightarrow> plain_names node \<Longrightarrow> plain_names found"
proof (induction node ns rule: descend.induct)
  case (1 node)
  then show ?case by simp
next
  case (2 c n ns)
  then show ?case by simp
next
  case (3 es n ns)
  from "3.prems"(1) obtain child where
    c: "lookup_entry es n = Some child" "descend child ns = Some found"
    by (auto split: option.splits)
  then have "(n, child) \<in> set es" by (simp add: lookup_entry_mem)
  with "3.prems"(2) have "plain_names child" by (auto simp: list_all_iff)
  with "3.IH" c show ?case by simp
qed

lemma rglob_sql_under:
  "(p, found) \<in> set (rglob_sql d node) \<Longrightarrow> plain_names node \<Longrightarrow>
     \<exists>rel. p = d @ rel \<and> list_all plain rel"
proof (induction d node arbitrary: p found rule: rglob_sql.induct)
  case (1 d c)
  then show ?case by simp
next
  case (2 d es)
  from "2.prems"(1) consider
      e where "e \<in> set es" "p = d @ [fst e]"
    | e where "e \<in> set es" "(p, found) \<in> set (rglob_sql (d @ [fst e]) (snd e))"
    by auto
  then show ?case
  proof cases
    case 1
    with "2.prems"(2) have "plain (fst e)" by (auto simp: list_all_iff)
    with 1 show ?thesis by auto
  next
    case 2
    with "2.prems"(2) have pe: "plain (fst e)" "plain_names (snd e)" by (auto simp: list_all_iff)
    with "2.IH" [OF 2(1) 2(2)] obtain rel where "p = (d @ [fst e]) @ rel" "list_all plain rel"
      by blast
    with pe(1) have "p = d @ (fst e # rel) \<and> list_all plain (fst e # rel)" by simp
    then show ?thesis by blast
  qed
qed

lemma wf_path_append: "wf_path d \<Longrightarrow> list_all plain rel \<Longrightarrow> wf_path (d @ rel)"
  by (cases d) (auto simp: wf_path_def list_all_iff split: list.splits)

lemma path_div_wf: "wf_path p \<Longrightarrow> wf_path (path_div p s)"
proof (cases "anchor s = []")
  case True
  assume "wf_path p"
  moreover have "list_all plain (Path s)"
    using True plain_filter_split [of s] by (simp add: Path_def)
  ultimately show ?thesis using True by (simp add: path_div_def wf_path_append)
next
  case False
  then show ?thesis by (simp add: path_div_def wf_Path)
qed

lemma get_dbt_target_dir_wf:
  assumes "get_dbt_target_dir root config label = Inr d" and "wf_path root"
  shows "wf_path d \<and> ''models'' \<in> set d"
proof -
  have m: "''models'' \<in> set (path_div q ''models'')" for q
    by (simp add: path_div_plain plain_literals)
  from assms show ?thesis
    by (auto simp: get_dbt_target_dir_def path_div_wf m split: option.splits if_splits)
qed

lemma constructor_target_dir:
  assumes "BigQueryDryRunner w project label location = Inr self" and "wf_path (cwd w)"
  shows "wf_path (dbt_target_dir self) \<and> ''models'' \<in> set (dbt_target_dir self)"
proof -
  from assms(1) obtain config where
    "get_dbt_target_dir (cwd w) config label = Inr (dbt_target_dir self)"
    by (auto simp: BigQueryDryRunner_def split: sum.splits)
  then show ?thesis using assms(2) by (rule get_dbt_target_dir_wf)
qed

lemma fs_lookup_plain_names:
  "fs_lookup w p = Some node \<Longrightarrow> plain_names (fs_root w) \<Longrightarrow> plain_names node"
  unfolding fs_lookup_def by (rule descend_plain_names)

lemma compiled_model_path:
  assumes "m \<in> set (get_compiled_models w self)"
    and "wf_path (dbt_target_dir self)" and "''models'' \<in> set (dbt_target_dir self)"
    and "plain_names (fs_root w)"
  shows "wf_path m \<and> ''models'' \<in> set m"
proof -
  from assms(1) obtain node where n1: "fs_lookup w (dbt_target_dir self) = Some node"
    by (cases "fs_lookup w (dbt_target_dir self)") (auto simp: get_compiled_models_def)
  with assms(1) obtain found where
    n2: "(m, found) \<in> set (rglob_sql (dbt_target_dir self) node)"
    by (auto simp: get_compiled_models_def)
  note n = n1 n2
  from n(1) assms(4) have "plain_names node" by (rule fs_lookup_plain_names)
  with n(2) obtain rel where "m = dbt_target_dir self @ rel" "list_all plain rel"
    using rglob_sql_under by blast
  with assms(2,3) show ?thesis by (simp add: wf_path_append)
qed

lemma trim_path_from_wf:
  assumes "wf_path p" and "parent_dir \<in> set p"
  shows "\<exists>suf. trim_path_from p parent_dir = Inr (parent_dir # suf)"
proof -
  from assms(2) obtain idx pre suf where
    "index_of p parent_dir = Some idx" "drop idx p = parent_dir # suf"
    using index_of_split [of parent_dir p] by blast
  moreover have "PathJoin (drop idx p) = drop idx p"
    using assms(1) by (simp add: PathJoin_wf wf_path_drop)
  ultimately show ?thesis by (simp add: trim_path_from_def)
qed

lemma unit_of_valid:
  assumes "wf_path m" and "''models'' \<in> set m"
    and "read_text w (str_of_path m) = Inr sql"
    and "client self sql \<lparr>dry_run = True, options = []\<rparr> = Inr job"
  shows "\<exists>shown. unit_of w self m =
           (Inr job, [Query sql \<lparr>dry_run = True, options = []\<rparr>,
                      LogInfo (''Model '' @ str_of_path shown @ '' is valid.'')])"
proof -
  from assms(1,2) obtain suf where "trim_path_from m ''models'' = Inr (''models'' # suf)"
    using trim_path_from_wf by blast
  with assms(1,3,4) have "unit_of w self m =
           (Inr job, [Query sql \<lparr>dry_run = True, options = []\<rparr>,
                      LogInfo (''Model '' @ str_of_path (''models'' # suf) @ '' is valid.'')])"
    by (simp add: unit_of_def run_from_model_def Path_str)
  then show ?thesis by blast
qed

lemma unit_of_rejected:
  assumes "read_text w (str_of_path (Path (str_of_path m))) = Inr sql"
    and "client self sql \<lparr>dry_run = True, options = []\<rparr> = Inl (BadRequest errors)"
  shows "\<exists>err. fst (unit_of w self m) = Inl err"
proof (cases "trim_path_from (Path (str_of_path m)) ''models''")
  case (Inl err)
  with assms show ?thesis by (simp add: unit_of_def run_from_model_def)
next
  case (Inr shown)
  with assms show ?thesis
    by (cases "first_message errors") (simp_all add: unit_of_def run_from_model_def)
qed

subsection \<open>The batch\<close>

text \<open>
  C1. Whatever the order of completion and whether or not a unit raises, when
  \<open>run_all_models\<close> ends every submitted model has its future, no future is pending,
  and each future holds the result of the call of \<open>run_from_model\<close> for its own model:
  one outcome for each request.
\<close>

theorem run_all_models_one_result_per_model:
  "snd (run_all_models w self order) =
     map (\<lambda>node. Some (run_from_model w self (Str (str_of_path node)) []))
       (get_compiled_models w self) \<and>
   length (snd (run_all_models w self order)) = length (get_compiled_models w self) \<and>
   None \<notin> set (snd (run_all_models w self order))"
  by (auto simp: run_all_models_pool unit_of_def)

lemma get_compiled_models_missing:
  "fs_lookup w (dbt_target_dir self) = None \<or> (\<exists>c. fs_lookup w (dbt_target_dir self) = Some (File c))
     \<Longrightarrow> get_compiled_models w self = []"
  by (auto simp: get_compiled_models_def)

lemma run_all_models_no_models:
  "get_compiled_models w self = [] \<Longrightarrow> run_all_models w self order = (Inr (), [])"
  by (simp add: run_all_models_def as_completed_def shutdown_def)

text \<open>
  C6, as the code has it. Where the target directory does not exist, or is a file,
  \<open>rglob\<close> yields nothing: the list of models is empty and \<open>run_all_models\<close> ends
  without an exception and without a unit.
\<close>

theorem missing_target_dir_is_empty_batch:
  "fs_lookup w (dbt_target_dir self) = None \<or> (\<exists>c. fs_lookup w (dbt_target_dir self) = Some (File c))
     \<Longrightarrow> get_compiled_models w self = [] \<and> run_all_models w self order = (Inr (), [])"
  using get_compiled_models_missing [of w self] run_all_models_no_models [of w self order]
  by blast

lemma example_constructor_full_refresh:
  "BigQueryDryRunner example_world ''c4-links-ecollab-dev'' (Some ''full_refresh'') ''EU'' =
     Inr example_full_refresh_runner"
  by (simp add: BigQueryDryRunner_def get_dbt_project_config_def example_world_def
      get_dbt_target_dir_def path_div_def Path_def anchor_def example_full_refresh_runner_def)

lemma example_full_refresh_missing:
  "fs_lookup example_world (dbt_target_dir example_full_refresh_runner) = None"
  by (simp add: fs_lookup_def resolve_def example_world_def example_full_refresh_runner_def)

text \<open>
  C6 as stated fails: the example project has no \<open>target/full_refresh\<close> directory, the
  constructor still succeeds for that label, and the batch ends as an empty, successful
  one.
\<close>

theorem missing_target_dir_succeeds:
  "BigQueryDryRunner example_world ''c4-links-ecollab-dev'' (Some ''full_refresh'') ''EU'' =
     Inr example_full_refresh_runner \<and>
   fs_lookup example_world (dbt_target_dir example_full_refresh_runner) = None \<and>
   run_all_models example_world example_full_refresh_runner [] = (Inr (), [])"
  by (simp add: example_constructor_full_refresh example_full_refresh_missing
      get_compiled_models_def run_all_models_no_models)

theorem missing_target_dir_is_empty_batch_witness:
  "fs_lookup example_world (dbt_target_dir example_full_refresh_runner) = None \<and>
   get_compiled_models example_world example_full_refresh_runner = [] \<and>
   run_all_models example_world example_full_refresh_runner [1, 0] = (Inr (), [])"
  using missing_target_dir_is_empty_batch [of example_world example_full_refresh_runner "[1, 0]"]
    example_full_refresh_missing
  by simp

text \<open>
  C7. For a runner made by the constructor, in a world whose working directory is a
  resolved path and whose entry names are single segments: when every model found is
  readable and the service accepts its text, \<open>run_all_models\<close> ends without an
  exception, with as many outcomes as models, each of them a valid one. A directory with
  no matching file is the case of no model at all.
\<close>

theorem run_all_models_all_valid:
  assumes "BigQueryDryRunner w project label location = Inr self"
    and "wf_path (cwd w)" and "plain_names (fs_root w)"
    and "\<forall>m \<in> set (get_compiled_models w self). \<exists>sql job.
           read_text w (str_of_path m) = Inr sql \<and>
           client self sql \<lparr>dry_run = True, options = []\<rparr> = Inr job"
  shows "fst (run_all_models w self order) = Inr () \<and>
         length (snd (run_all_models w self order)) = length (get_compiled_models w self) \<and>
         (\<forall>r \<in> set (snd (run_all_models w self order)). \<exists>job evs. r = Some (Inr job, evs))"
proof -
  have d: "wf_path (dbt_target_dir self)" "''models'' \<in> set (dbt_target_dir self)"
    using constructor_target_dir [OF assms(1,2)] by simp_all
  have v: "\<exists>job evs. unit_of w self m = (Inr job, evs)"
    if "m \<in> set (get_compiled_models w self)" for m
  proof -
    from that have "wf_path m \<and> ''models'' \<in> set m"
      using d assms(3) by (rule compiled_model_path)
    moreover from that assms(4) obtain sql job where
      "read_text w (str_of_path m) = Inr sql"
      "client self sql \<lparr>dry_run = True, options = []\<rparr> = Inr job"
      by blast
    ultimately show ?thesis using unit_of_valid [of m w sql self job] by blast
  qed
  then have "\<forall>m \<in> set (get_compiled_models w self). \<exists>job. fst (unit_of w self m) = Inr job"
    by fastforce
  then have "fst (run_all_models w self order) = Inr ()"
    by (rule run_all_models_ok)
  moreover have "\<forall>r \<in> set (snd (run_all_models w self order)). \<exists>job evs. r = Some (Inr job, evs)"
    using v by (auto simp: run_all_models_pool)
  ultimately show ?thesis by (simp add: run_all_models_pool)
qed

text \<open>
  C2. In the same setting, when the service rejects the text of one of the models with
  \<open>BadRequest\<close>, \<open>run_all_models\<close> raises, and every model whose text the service
  accepts still has its valid outcome in the pool, with its request and its log line.
\<close>

theorem run_all_models_failure_isolation:
  assumes "BigQueryDryRunner w project label location = Inr self"
    and "wf_path (cwd w)" and "plain_names (fs_root w)"
    and "bad \<in> set (get_compiled_models w self)"
    and "read_text w (str_of_path bad) = Inr sql"
    and "client self sql \<lparr>dry_run = True, options = []\<rparr> = Inl (BadRequest errors)"
  shows "(\<exists>err. fst (run_all_models w self order) = Inl err) \<and>
         (\<forall>i sql' job. i < length (get_compiled_models w self) \<and>
            read_text w (str_of_path (get_compiled_models w self ! i)) = Inr sql' \<and>
            client self sql' \<lparr>dry_run = True, options = []\<rparr> = Inr job \<longrightarrow>
            (\<exists>shown. snd (run_all_models w self order) ! i =
               Some (Inr job, [Query sql' \<lparr>dry_run = True, options = []\<rparr>,
                               LogInfo (''Model '' @ str_of_path shown @ '' is valid.'')])))"
proof (intro conjI allI impI)
  have d: "wf_path (dbt_target_dir self)" "''models'' \<in> set (dbt_target_dir self)"
    using constructor_target_dir [OF assms(1,2)] by simp_all
  have "wf_path bad" using compiled_model_path [OF assms(4) d assms(3)] by simp
  then have "Path (str_of_path bad) = bad" by (rule Path_str)
  with assms(5,6) obtain err where "fst (unit_of w self bad) = Inl err"
    using unit_of_rejected [of w bad sql self errors] by auto
  with assms(4) show "\<exists>err. fst (run_all_models w self order) = Inl err"
    by (rule run_all_models_raises)
  fix i sql' job
  assume a: "i < length (get_compiled_models w self) \<and>
            read_text w (str_of_path (get_compiled_models w self ! i)) = Inr sql' \<and>
            client self sql' \<lparr>dry_run = True, options = []\<rparr> = Inr job"
  then have "get_compiled_models w self ! i \<in> set (get_compiled_models w self)" by simp
  then have "wf_path (get_compiled_models w self ! i) \<and>
      ''models'' \<in> set (get_compiled_models w self ! i)"
    using d assms(3) by (rule compiled_model_path)
  with a obtain shown where "unit_of w self (get_compiled_models w self ! i) =
      (Inr job, [Query sql' \<lparr>dry_run = True, options = []\<rparr>,
                 LogInfo (''Model '' @ str_of_path shown @ '' is valid.'')])"
    using unit_of_valid [of "get_compiled_models w self ! i" w sql' self job] by blast
  with a show "\<exists>shown. snd (run_all_models w self order) ! i =
               Some (Inr job, [Query sql' \<lparr>dry_run = True, options = []\<rparr>,
                               LogInfo (''Model '' @ str_of_path shown @ '' is valid.'')])"
    by (auto simp: run_all_models_pool)
qed

subsection \<open>The batch on the example project\<close>

lemma example_constructor_incremental:
  "BigQueryDryRunner example_world ''c4-links-ecollab-dev'' (Some ''incremental'') ''EU'' =
     Inr example_runner"
  by (simp add: BigQueryDryRunner_def get_dbt_project_config_def example_world_def
      get_dbt_target_dir_def path_div_def Path_def anchor_def example_runner_def)

lemma example_constructor_default:
  "BigQueryDryRunner example_world ''c4-links-ecollab-dev'' None ''EU'' =
     Inr example_default_runner"
  by (simp add: BigQueryDryRunner_def get_dbt_project_config_def example_world_def
      get_dbt_target_dir_def path_div_def Path_def anchor_def example_default_runner_def)

lemma example_constructor_empty:
  "BigQueryDryRunner example_empty_world ''c4-links-ecollab-dev'' None ''EU'' =
     Inr example_empty_runner"
  by (simp add: BigQueryDryRunner_def get_dbt_project_config_def example_world_def
      example_empty_world_def
      get_dbt_target_dir_def path_div_def Path_def anchor_def example_empty_runner_def)

lemma example_wf_cwd: "wf_path (cwd example_world)" "wf_path (cwd example_empty_world)"
  by (simp_all add: example_world_def example_empty_world_def wf_path_def plain_def)

lemma example_plain_names:
  "plain_names (fs_root example_world)" "plain_names (fs_root example_empty_world)"
  by (simp_all add: example_world_def example_empty_world_def example_models_def
      example_valid_models_def example_no_models_def plain_def)

lemma example_models_incremental:
  "get_compiled_models example_world example_runner =
     [[''/'', ''w'', ''target'', ''incremental'', ''compiled'', ''shop'', ''models'', ''a.sql''],
      [''/'', ''w'', ''target'', ''incremental'', ''compiled'', ''shop'', ''models'', ''b'', ''bad.sql'']]"
  by (simp add: get_compiled_models_def fs_lookup_def resolve_def example_world_def
      example_runner_def example_models_def endswith_def is_file_def)

lemma example_models_default:
  "get_compiled_models example_world example_default_runner =
     [[''/'', ''w'', ''target'', ''compiled'', ''shop'', ''models'', ''a.sql''],
      [''/'', ''w'', ''target'', ''compiled'', ''shop'', ''models'', ''c'', ''d.sql'']]"
  by (simp add: get_compiled_models_def fs_lookup_def resolve_def example_world_def
      example_default_runner_def example_valid_models_def endswith_def is_file_def)

lemma example_models_empty:
  "get_compiled_models example_empty_world example_empty_runner = []"
  by (simp add: get_compiled_models_def fs_lookup_def resolve_def example_world_def
      example_empty_world_def example_empty_runner_def example_no_models_def endswith_def
      is_file_def)

lemma example_read_default:
  "read_text example_world
     (str_of_path [''/'', ''w'', ''target'', ''compiled'', ''shop'', ''models'', ''a.sql'']) =
     Inr ''select 1''"
  "read_text example_world
     (str_of_path [''/'', ''w'', ''target'', ''compiled'', ''shop'', ''models'', ''c'', ''d.sql'']) =
     Inr ''select 1''"
  by (simp_all add: str_of_path_def read_text_def Path_def anchor_def fs_lookup_def resolve_def
      example_world_def example_valid_models_def)

lemma example_read_incremental:
  "read_text example_world
     (str_of_path [''/'', ''w'', ''target'', ''incremental'', ''compiled'', ''shop'', ''models'', ''a.sql'']) =
     Inr ''select 1''"
  "read_text example_world
     (str_of_path [''/'', ''w'', ''target'', ''incremental'', ''compiled'', ''shop'', ''models'', ''b'', ''bad.sql'']) =
     Inr ''select nope''"
  by (simp_all add: str_of_path_def read_text_def Path_def anchor_def fs_lookup_def resolve_def
      example_world_def example_models_def)

lemma example_service_answers:
  "example_service ''select 1'' cfg = Inr (QueryJob ''job-1'')"
  "example_service ''select nope'' cfg =
     Inl (BadRequest [[(''reason'', ''invalidQuery''), (''message'', ''Unrecognized name: nope'')]])"
  by (simp_all add: example_service_def)

lemma example_clients:
  "client example_runner = example_service" "client example_default_runner = example_service"
  "client example_empty_runner = example_service"
  by (simp_all add: example_runner_def example_default_runner_def example_empty_runner_def)

theorem run_all_models_all_valid_witness:
  "BigQueryDryRunner example_world ''c4-links-ecollab-dev'' None ''EU'' =
     Inr example_default_runner \<and>
   wf_path (cwd example_world) \<and> plain_names (fs_root example_world) \<and>
   length (get_compiled_models example_world example_default_runner) = 2 \<and>
   fst (run_all_models example_world example_default_runner [1, 0]) = Inr () \<and>
   length (snd (run_all_models example_world example_default_runner [1, 0])) = 2 \<and>
   BigQueryDryRunner example_empty_world ''c4-links-ecollab-dev'' None ''EU'' =
     Inr example_empty_runner \<and>
   get_compiled_models example_empty_world example_empty_runner = [] \<and>
   fst (run_all_models example_empty_world example_empty_runner []) = Inr () \<and>
   length (snd (run_all_models example_empty_world example_empty_runner [])) = 0"
proof -
  have v: "\<forall>m \<in> set (get_compiled_models example_world example_default_runner). \<exists>sql job.
           read_text example_world (str_of_path m) = Inr sql \<and>
           client example_default_runner sql \<lparr>dry_run = True, options = []\<rparr> = Inr job"
    by (simp add: example_models_default example_read_default example_clients
        example_service_answers)
  have e: "\<forall>m \<in> set (get_compiled_models example_empty_world example_empty_runner). \<exists>sql job.
           read_text example_empty_world (str_of_path m) = Inr sql \<and>
           client example_empty_runner sql \<lparr>dry_run = True, options = []\<rparr> = Inr job"
    by (simp add: example_models_empty)
  note full = run_all_models_all_valid [OF example_constructor_default example_wf_cwd(1)
      example_plain_names(1) v, of "[1, 0]"]
  note none = run_all_models_all_valid [OF example_constructor_empty example_wf_cwd(2)
      example_plain_names(2) e, of "[]"]
  from full none show ?thesis
    by (simp add: example_constructor_default example_constructor_empty example_wf_cwd
        example_plain_names example_models_default example_models_empty)
qed

theorem run_all_models_failure_isolation_witness:
  "BigQueryDryRunner example_world ''c4-links-ecollab-dev'' (Some ''incremental'') ''EU'' =
     Inr example_runner \<and>
   wf_path (cwd example_world) \<and> plain_names (fs_root example_world) \<and>
   get_compiled_models example_world example_runner =
     [[''/'', ''w'', ''target'', ''incremental'', ''compiled'', ''shop'', ''models'', ''a.sql''],
      [''/'', ''w'', ''target'', ''incremental'', ''compiled'', ''shop'', ''models'', ''b'', ''bad.sql'']] \<and>
   (\<exists>err. fst (run_all_models example_world example_runner [1, 0]) = Inl err) \<and>
   (\<exists>shown. snd (run_all_models example_world example_runner [1, 0]) ! 0 =
      Some (Inr (QueryJob ''job-1''),
            [Query ''select 1'' \<lparr>dry_run = True, options = []\<rparr>,
             LogInfo (''Model '' @ str_of_path shown @ '' is valid.'')]))"
proof -
  have b: "[''/'', ''w'', ''target'', ''incremental'', ''compiled'', ''shop'', ''models'', ''b'', ''bad.sql'']
      \<in> set (get_compiled_models example_world example_runner)"
    by (simp add: example_models_incremental)
  have c: "client example_runner ''select nope'' \<lparr>dry_run = True, options = []\<rparr> =
      Inl (BadRequest [[(''reason'', ''invalidQuery''), (''message'', ''Unrecognized name: nope'')]])"
    by (simp add: example_clients example_service_answers)
  note iso = run_all_models_failure_isolation [OF example_constructor_incremental
      example_wf_cwd(1) example_plain_names(1) b example_read_incremental(2) c, of "[1, 0]"]
  have a: "0 < length (get_compiled_models example_world example_runner) \<and>
      read_text example_world (str_of_path (get_compiled_models example_world example_runner ! 0)) =
        Inr ''select 1'' \<and>
      client example_runner ''select 1'' \<lparr>dry_run = True, options = []\<rparr> = Inr (QueryJob ''job-1'')"
    by (simp add: example_models_incremental example_read_incremental example_clients
        example_service_answers)
  from iso a have "\<exists>shown. snd (run_all_models example_world example_runner [1, 0]) ! 0 =
      Some (Inr (QueryJob ''job-1''),
            [Query ''select 1'' \<lparr>dry_run = True, options = []\<rparr>,
             LogInfo (''Model '' @ str_of_path shown @ '' is valid.'')])"
    by blast
  with iso show ?thesis
    by (simp add: example_constructor_incremental example_wf_cwd example_plain_names
        example_models_incremental)
qed

text \<open>
  The example of the specification: \<open>models/a.sql\<close> is valid, \<open>models/b/bad.sql\<close> names
  a column that does not exist. Whatever the order of completion, the batch has its two
  outcomes, the invalid one with the message of the server, and it raises.
\<close>

lemma run_all_models_raised:
  assumes "fst (run_all_models w self order) = Inl err"
  shows "\<exists>m \<in> set (get_compiled_models w self). fst (unit_of w self m) = Inl err"
proof (cases "snd (consume w self (get_compiled_models w self)
    (replicate (length (get_compiled_models w self)) None)
    (as_completed (length (get_compiled_models w self)) order))")
  case None
  with assms show ?thesis by (simp add: run_all_models_def Let_def)
next
  case (Some e)
  with assms have "e = err" by (simp add: run_all_models_def Let_def)
  with Some obtain i where "i < length (get_compiled_models w self)"
    "fst (unit_of w self (get_compiled_models w self ! i)) = Inl err"
    using consume_Some [OF settled_replicate] by blast
  then show ?thesis using nth_mem by blast
qed

lemma example_unit_a:
  "unit_of example_world example_runner
     [''/'', ''w'', ''target'', ''incremental'', ''compiled'', ''shop'', ''models'', ''a.sql''] =
   (Inr (QueryJob ''job-1''),
    [Query ''select 1'' \<lparr>dry_run = True, options = []\<rparr>, LogInfo ''Model models/a.sql is valid.''])"
  by (simp add: unit_of_def run_from_model_def str_of_path_def read_text_def Path_def anchor_def
      fs_lookup_def resolve_def example_world_def example_models_def
      example_runner_def example_service_def trim_path_from_def PathJoin_def path_div_def)

lemma example_unit_bad:
  "unit_of example_world example_runner
     [''/'', ''w'', ''target'', ''incremental'', ''compiled'', ''shop'', ''models'', ''b'', ''bad.sql''] =
   (Inl (BadRequest [[(''reason'', ''invalidQuery''), (''message'', ''Unrecognized name: nope'')]]),
    [Query ''select nope'' \<lparr>dry_run = True, options = []\<rparr>,
     LogError ''Error running the dry run for model models/b/bad.sql. The sever returned an error: Unrecognized name: nope''])"
  by (simp add: unit_of_def str_example_bad run_from_model_example_bad)

lemma example_batch_incremental:
  "run_all_models example_world example_runner order =
     (Inl (BadRequest [[(''reason'', ''invalidQuery''), (''message'', ''Unrecognized name: nope'')]]),
      [Some (Inr (QueryJob ''job-1''),
         [Query ''select 1'' \<lparr>dry_run = True, options = []\<rparr>,
          LogInfo ''Model models/a.sql is valid.'']),
       Some (Inl (BadRequest [[(''reason'', ''invalidQuery''), (''message'', ''Unrecognized name: nope'')]]),
         [Query ''select nope'' \<lparr>dry_run = True, options = []\<rparr>,
          LogError ''Error running the dry run for model models/b/bad.sql. The sever returned an error: Unrecognized name: nope''])])"
proof -
  have p: "snd (run_all_models example_world example_runner order) =
      [Some (Inr (QueryJob ''job-1''),
         [Query ''select 1'' \<lparr>dry_run = True, options = []\<rparr>,
          LogInfo ''Model models/a.sql is valid.'']),
       Some (Inl (BadRequest [[(''reason'', ''invalidQuery''), (''message'', ''Unrecognized name: nope'')]]),
         [Query ''select nope'' \<lparr>dry_run = True, options = []\<rparr>,
          LogError ''Error running the dry run for model models/b/bad.sql. The sever returned an error: Unrecognized name: nope''])]"
    by (simp add: run_all_models_pool example_models_incremental example_unit_a example_unit_bad)
  have "\<exists>e. fst (run_all_models example_world example_runner order) = Inl e"
    by (rule run_all_models_raises [of
          "[''/'', ''w'', ''target'', ''incremental'', ''compiled'', ''shop'', ''models'', ''b'', ''bad.sql'']"])
       (simp_all add: example_models_incremental example_unit_bad)
  then obtain e where e: "fst (run_all_models example_world example_runner order) = Inl e"
    by blast
  then have "\<exists>m \<in> set (get_compiled_models example_world example_runner).
      fst (unit_of example_world example_runner m) = Inl e"
    by (rule run_all_models_raised)
  then have "e = BadRequest [[(''reason'', ''invalidQuery''), (''message'', ''Unrecognized name: nope'')]]"
    by (simp add: example_models_incremental example_unit_a example_unit_bad)
  with e p show ?thesis by (simp add: prod_eq_iff)
qed

subsection \<open>The command line\<close>

lemma finish_exit_code:
  "exit_code (finish r) = (case fst r of Inl err \<Rightarrow> 1 | Inr u \<Rightarrow> 0)"
  by (simp add: finish_def split: sum.splits)

lemma dry_run_models_stdout: "stdout (snd (dry_run_models label w order st)) = stdout st"
  by (simp add: dry_run_models_def Let_def split: sum.splits)

lemma finish_Inl:
  "finish (Inl err, st) =
     \<lparr>printed = stdout st, traceback = Some err, exit_code = 1, performed = batches st\<rparr>"
  by (simp add: finish_def)

text \<open>
  C9, as the code has it. When the argument is missing or is neither \<open>incremental\<close> nor
  \<open>full_refresh\<close>, the exit code is 1. The usage message is printed on standard output,
  and it is all that is printed there, when no exception has escaped; with an escaped
  exception nothing is printed there. With a missing argument an exception always
  escapes, so there is a traceback and no usage message.
\<close>

theorem main_usage_error:
  assumes "length argv < 2 \<or> (argv ! 1 \<noteq> ''incremental'' \<and> argv ! 1 \<noteq> ''full_refresh'')"
  shows "exit_code (main w argv order1 order2) = 1 \<and>
         printed (main w argv order1 order2) =
           (if traceback (main w argv order1 order2) = None then [usage] else []) \<and>
         (length argv < 2 \<longrightarrow> traceback (main w argv order1 order2) \<noteq> None)"
proof (cases "dry_run_incremental_models w order1 \<lparr>stdout = [], batches = []\<rparr>")
  case (Pair res st)
  have out: "stdout st = []"
    using Pair dry_run_models_stdout [of "''incremental''" w order1 "\<lparr>stdout = [], batches = []\<rparr>"]
    by (simp add: dry_run_incremental_models_def)
  show ?thesis
  proof (cases res)
    case (Inl err)
    with Pair out show ?thesis by (simp add: main_def finish_Inl)
  next
    case (Inr u)
    show ?thesis
    proof (cases argv)
      case Nil
      with Pair Inr out show ?thesis by (simp add: main_def finish_Inl)
    next
      case (Cons prog rest)
      show ?thesis
      proof (cases rest)
        case Nil
        with Pair Inr out Cons show ?thesis by (simp add: main_def finish_Inl)
      next
        case (Cons arg others)
        with assms \<open>argv = prog # rest\<close> have "arg \<noteq> ''incremental''" "arg \<noteq> ''full_refresh''"
          by simp_all
        with Pair Inr out Cons \<open>argv = prog # rest\<close> show ?thesis by (simp add: main_def)
      qed
    qed
  qed
qed

lemma example_cli_constructor:
  "BigQueryDryRunner example_cli_world ''c4-links-ecollab-dev'' (Some ''incremental'') ''EU'' =
     Inr example_cli_runner"
  "BigQueryDryRunner example_cli_world ''c4-links-ecollab-dev'' (Some ''full_refresh'') ''EU'' =
     Inr example_cli_full_refresh_runner"
  by (simp_all add: BigQueryDryRunner_def get_dbt_project_config_def example_world_def
      example_cli_world_def get_dbt_target_dir_def path_div_def Path_def anchor_def
      example_cli_runner_def example_cli_full_refresh_runner_def)

lemma example_cli_models:
  "get_compiled_models example_cli_world example_cli_runner =
     [[''/'', ''w'', ''target'', ''incremental'', ''compiled'', ''valid_shop'', ''models'', ''a.sql''],
      [''/'', ''w'', ''target'', ''incremental'', ''compiled'', ''valid_shop'', ''models'', ''c'', ''d.sql'']]"
  "get_compiled_models example_cli_world example_cli_full_refresh_runner = []"
  by (simp_all add: get_compiled_models_def fs_lookup_def resolve_def example_world_def
      example_cli_world_def example_cli_runner_def example_cli_full_refresh_runner_def
      example_valid_models_def endswith_def is_file_def)

lemma example_cli_unit_a:
  "run_from_model example_cli_world example_cli_runner
     (Str (str_of_path
        [''/'', ''w'', ''target'', ''incremental'', ''compiled'', ''valid_shop'', ''models'', ''a.sql''])) [] =
   (Inr (QueryJob ''job-1''),
    [Query ''select 1'' \<lparr>dry_run = True, options = []\<rparr>, LogInfo ''Model models/a.sql is valid.''])"
  by (simp add: run_from_model_def str_of_path_def read_text_def Path_def anchor_def fs_lookup_def
      resolve_def example_world_def example_cli_world_def example_valid_models_def
      example_cli_runner_def example_service_def trim_path_from_def PathJoin_def path_div_def)

lemma example_cli_unit_d:
  "run_from_model example_cli_world example_cli_runner
     (Str (str_of_path
        [''/'', ''w'', ''target'', ''incremental'', ''compiled'', ''valid_shop'', ''models'', ''c'', ''d.sql''])) [] =
   (Inr (QueryJob ''job-1''),
    [Query ''select 1'' \<lparr>dry_run = True, options = []\<rparr>, LogInfo ''Model models/c/d.sql is valid.''])"
  by (simp add: run_from_model_def str_of_path_def read_text_def Path_def anchor_def fs_lookup_def
      resolve_def example_world_def example_cli_world_def example_valid_models_def
      example_cli_runner_def example_service_def trim_path_from_def PathJoin_def path_div_def)

lemma example_cli_batch:
  "run_all_models example_cli_world example_cli_runner order = (Inr (), example_cli_pool)"
proof -
  have "snd (run_all_models example_cli_world example_cli_runner order) = example_cli_pool"
    by (simp add: run_all_models_pool example_cli_models unit_of_def example_cli_unit_a
        example_cli_unit_d example_cli_pool_def)
  moreover have "fst (run_all_models example_cli_world example_cli_runner order) = Inr ()"
    by (rule run_all_models_ok)
      (simp add: example_cli_models unit_of_def example_cli_unit_a example_cli_unit_d)
  ultimately show ?thesis by (simp add: prod_eq_iff)
qed

lemma example_cli_incremental:
  "dry_run_incremental_models example_cli_world order st =
     (Inr (), st\<lparr>batches := batches st @ [(dbt_target_dir example_cli_runner, example_cli_pool)]\<rparr>)"
  by (simp add: dry_run_incremental_models_def dry_run_models_def example_cli_constructor
      example_cli_batch)

lemma example_cli_full_refresh:
  "dry_run_full_refresh_models example_cli_world order st =
     (Inr (), st\<lparr>stdout := stdout st @ [''Running full refresh models''],
                   batches := batches st @ [(dbt_target_dir example_cli_full_refresh_runner, [])]\<rparr>)"
  by (simp add: dry_run_full_refresh_models_def dry_run_models_def example_cli_constructor
      run_all_models_no_models example_cli_models)

text \<open>
  C9 as stated fails on the example project: with the argument \<open>bogus\<close> the incremental
  batch has been run, two requests issued, before the usage message is printed, and that
  message is on standard output with nothing raised; with no argument the same batch has
  been run before \<open>IndexError\<close> escapes; with \<open>full_refresh\<close> both batches are run.
\<close>

theorem main_runs_before_checking_argument:
  "main example_cli_world [''hooks.py'', ''bogus''] [] [] =
     \<lparr>printed = [usage], traceback = None, exit_code = 1,
      performed = [(dbt_target_dir example_cli_runner, example_cli_pool)]\<rparr> \<and>
   main example_cli_world [''hooks.py''] [] [] =
     \<lparr>printed = [], traceback = Some IndexError, exit_code = 1,
      performed = [(dbt_target_dir example_cli_runner, example_cli_pool)]\<rparr> \<and>
   main example_cli_world [''hooks.py'', ''full_refresh''] [] [] =
     \<lparr>printed = [''Running full refresh models''], traceback = None, exit_code = 0,
      performed = [(dbt_target_dir example_cli_runner, example_cli_pool),
                   (dbt_target_dir example_cli_full_refresh_runner, [])]\<rparr>"
  by (simp add: main_def example_cli_incremental example_cli_full_refresh finish_def)

theorem main_usage_error_witness:
  "(length [''hooks.py'', ''bogus''] < 2 \<or>
      ([''hooks.py'', ''bogus''] ! 1 \<noteq> ''incremental'' \<and> [''hooks.py'', ''bogus''] ! 1 \<noteq> ''full_refresh'')) \<and>
   exit_code (main example_cli_world [''hooks.py'', ''bogus''] [] []) = 1 \<and>
   traceback (main example_cli_world [''hooks.py'', ''bogus''] [] []) = None \<and>
   printed (main example_cli_world [''hooks.py'', ''bogus''] [] []) = [usage] \<and>
   length [''hooks.py''] < 2 \<and>
   exit_code (main example_cli_world [''hooks.py''] [] []) = 1 \<and>
   traceback (main example_cli_world [''hooks.py''] [] []) \<noteq> None"
proof -
  have a: "length [''hooks.py'', ''bogus''] < 2 \<or>
      ([''hooks.py'', ''bogus''] ! 1 \<noteq> ''incremental'' \<and> [''hooks.py'', ''bogus''] ! 1 \<noteq> ''full_refresh'')"
    by simp
  have b: "length [''hooks.py''] < 2 \<or>
      ([''hooks.py''] ! 1 \<noteq> ''incremental'' \<and> [''hooks.py''] ! 1 \<noteq> ''full_refresh'')"
    by simp
  have t: "traceback (main example_cli_world [''hooks.py'', ''bogus''] [] []) = None"
    by (simp add: main_def example_cli_incremental)
  from main_usage_error [OF a, of example_cli_world "[]" "[]"]
    main_usage_error [OF b, of example_cli_world "[]" "[]"] a t
  show ?thesis by simp
qed

end
